theory Spec2Isabelle
  imports Main "HOL-Library.Word"
begin

section \<open>Strings\<close>

text \<open>
  A Go string is modelled as a \<^typ>\<open>string\<close>. Every loop of the shell that walks a
  string does so rune by rune (\<^verbatim>\<open>for _, char := range line\<close>); one \<^typ>\<open>char\<close>
  stands for one rune, so the model covers the code points up to U+00FF. On that range
  \<^verbatim>\<open>unicode.IsDigit\<close> is the test \<^verbatim>\<open>'0' <= r && r <= '9'\<close> and
  \<^verbatim>\<open>unicode.IsSpace\<close> holds of the eight characters listed below.
\<close>

definition bslash :: char where "bslash = CHR 0x5C"

definition dquote :: char where "dquote = CHR 0x22"

definition squote :: char where "squote = CHR 0x27"

definition space :: char where "space = CHR 0x20"

definition tab :: char where "tab = CHR 0x09"

definition newline :: char where "newline = CHR 0x0A"

definition creturn :: char where "creturn = CHR 0x0D"

definition isSpace :: "char \<Rightarrow> bool" where
  "isSpace c \<longleftrightarrow>
     c = CHR 0x09 \<or> c = CHR 0x0A \<or> c = CHR 0x0B \<or> c = CHR 0x0C \<or> c = CHR 0x0D \<or>
     c = CHR 0x20 \<or> c = CHR 0x85 \<or> c = CHR 0xA0"

definition isDigit :: "char \<Rightarrow> bool" where
  "isDigit c \<longleftrightarrow> (48::nat) \<le> of_char c \<and> (of_char c :: nat) \<le> 57"

text \<open>\<^verbatim>\<open>strings.TrimSpace\<close>: leading and trailing white space removed.\<close>

definition TrimSpace :: "string \<Rightarrow> string" where
  "TrimSpace s = rev (dropWhile isSpace (rev (dropWhile isSpace s)))"

text \<open>\<^verbatim>\<open>strings.HasPrefix\<close>.\<close>

definition HasPrefix :: "string \<Rightarrow> string \<Rightarrow> bool" where
  "HasPrefix s p \<longleftrightarrow> take (length p) s = p"

text \<open>\<^verbatim>\<open>strings.Join\<close>.\<close>

fun Join :: "string list \<Rightarrow> string \<Rightarrow> string" where
  "Join [] sep = []"
| "Join [x] sep = x"
| "Join (x # y # ys) sep = x @ sep @ Join (y # ys) sep"

text \<open>
  \<^verbatim>\<open>strings.Split\<close> and \<^verbatim>\<open>strings.SplitN\<close> for a separator of one character,
  the only kind the shell uses (\<^verbatim>\<open>":"\<close> and \<^verbatim>\<open>"|"\<close>). \<open>cur\<close> is the field
  being collected. With a positive count \<open>n\<close>, \<^verbatim>\<open>SplitN\<close> stops splitting once
  \<open>n - 1\<close> separators have been used and returns the rest unsplit; with \<open>n = 0\<close>
  it returns no field.
\<close>

fun split_from :: "char \<Rightarrow> string \<Rightarrow> string \<Rightarrow> string list" where
  "split_from sep cur [] = [cur]"
| "split_from sep cur (c # cs) =
     (if c = sep then cur # split_from sep [] cs else split_from sep (cur @ [c]) cs)"

definition Split :: "string \<Rightarrow> char \<Rightarrow> string list" where
  "Split s sep = split_from sep [] s"

fun splitn_from :: "char \<Rightarrow> nat \<Rightarrow> string \<Rightarrow> string \<Rightarrow> string list" where
  "splitn_from sep n cur [] = [cur]"
| "splitn_from sep n cur (c # cs) =
     (if n \<le> 1 then [cur @ c # cs]
      else if c = sep then cur # splitn_from sep (n - 1) [] cs
      else splitn_from sep n (cur @ [c]) cs)"

definition SplitN :: "string \<Rightarrow> char \<Rightarrow> nat \<Rightarrow> string list" where
  "SplitN s sep n = (if n = 0 then [] else splitn_from sep n [] s)"

section \<open>Tokenizer\<close>

text \<open>
  \<^verbatim>\<open>tokenize\<close> keeps five variables while it scans the line; they are the fields of
  \<open>tok_state\<close>. \<open>tok_step\<close> is the body of the loop for one rune and \<open>tokenize\<close>
  the loop followed by the two checks after it. The only error is the unclosed quote.
\<close>

datatype tok_error = UnclosedQuote

record tok_state =
  tokens :: "string list"
  current :: string
  inQuotes :: bool
  quoteChar :: char
  escaped :: bool

definition tok_init :: tok_state where
  "tok_init = \<lparr>tokens = [], current = [], inQuotes = False, quoteChar = CHR 0x00,
     escaped = False\<rparr>"

definition tok_step :: "tok_state \<Rightarrow> char \<Rightarrow> tok_state" where
  "tok_step s c =
     (if escaped s then s\<lparr>current := current s @ [c], escaped := False\<rparr>
      else if c = bslash then s\<lparr>escaped := True\<rparr>
      else if c = dquote \<or> c = squote then
        (if \<not> inQuotes s then s\<lparr>inQuotes := True, quoteChar := c\<rparr>
         else if c = quoteChar s then s\<lparr>inQuotes := False\<rparr>
         else s\<lparr>current := current s @ [c]\<rparr>)
      else if c = space \<or> c = tab then
        (if inQuotes s then s\<lparr>current := current s @ [c]\<rparr>
         else if current s \<noteq> [] then s\<lparr>tokens := tokens s @ [current s], current := []\<rparr>
         else s)
      else s\<lparr>current := current s @ [c]\<rparr>)"

definition tok_finish :: "tok_state \<Rightarrow> tok_error + string list" where
  "tok_finish s =
     (if inQuotes s then Inl UnclosedQuote
      else if current s \<noteq> [] then Inr (tokens s @ [current s])
      else Inr (tokens s))"

definition tokenize :: "string \<Rightarrow> tok_error + string list" where
  "tokenize line = tok_finish (foldl tok_step tok_init line)"

subsection \<open>The scan as the specification describes it\<close>

text \<open>
  The specification describes the scan by regions: outside any quotes, or inside a region
  opened by one of the two quote characters. \<open>spec_tokens m cur line\<close> follows those
  words: \<open>m\<close> is the region, \<open>cur\<close> the pending token. A backslash takes the next
  character literally, whatever it is, and a backslash that ends the input is dropped. Inside
  a region only the opening quote character closes it. Outside, a quote character opens a
  region, a space or tab ends the pending token when it is not empty, and any other character
  joins the pending token. The result is \<open>None\<close> when the input ends inside a region.
  \<open>spec_end_region\<close> is the region in which the input ends.
\<close>

datatype region = Outside | Inside char

definition emit :: "string \<Rightarrow> string list" where
  "emit cur = (if cur = [] then [] else [cur])"

fun spec_tokens :: "region \<Rightarrow> string \<Rightarrow> string \<Rightarrow> string list option" where
  "spec_tokens m cur [] = (case m of Outside \<Rightarrow> Some (emit cur) | Inside q \<Rightarrow> None)"
| "spec_tokens m cur (c # rest) =
     (if c = bslash then
        (case rest of
           [] \<Rightarrow> (case m of Outside \<Rightarrow> Some (emit cur) | Inside q \<Rightarrow> None)
         | d # rest' \<Rightarrow> spec_tokens m (cur @ [d]) rest')
      else
        (case m of
           Inside q \<Rightarrow>
             if c = q then spec_tokens Outside cur rest
             else spec_tokens (Inside q) (cur @ [c]) rest
         | Outside \<Rightarrow>
             if c = dquote \<or> c = squote then spec_tokens (Inside c) cur rest
             else if c = space \<or> c = tab then
               map_option (\<lambda>ts. emit cur @ ts) (spec_tokens Outside [] rest)
             else spec_tokens Outside (cur @ [c]) rest))"

fun spec_end_region :: "region \<Rightarrow> string \<Rightarrow> region" where
  "spec_end_region m [] = m"
| "spec_end_region m (c # rest) =
     (if c = bslash then
        (case rest of [] \<Rightarrow> m | d # rest' \<Rightarrow> spec_end_region m rest')
      else
        (case m of
           Inside q \<Rightarrow> if c = q then spec_end_region Outside rest else spec_end_region (Inside q) rest
         | Outside \<Rightarrow>
             if c = dquote \<or> c = squote then spec_end_region (Inside c) rest
             else spec_end_region Outside rest))"

subsection \<open>The specified scan, resumed from a state of the loop\<close>

text \<open>
  \<open>region_of\<close> reads the region off the loop's variables. \<open>spec_resume\<close> is the
  specified scan continued from a state of the loop: when an escape is pending, the next
  character is literal.
\<close>

definition region_of :: "tok_state \<Rightarrow> region" where
  "region_of s = (if inQuotes s then Inside (quoteChar s) else Outside)"

definition spec_result :: "string list \<Rightarrow> string list option \<Rightarrow> tok_error + string list" where
  "spec_result pre r = (case r of None \<Rightarrow> Inl UnclosedQuote | Some ts \<Rightarrow> Inr (pre @ ts))"

definition spec_resume :: "tok_state \<Rightarrow> string \<Rightarrow> string list option" where
  "spec_resume s xs =
     (if escaped s then
        (case xs of [] \<Rightarrow> spec_tokens (region_of s) (current s) []
         | d # rest \<Rightarrow> spec_tokens (region_of s) (current s @ [d]) rest)
      else spec_tokens (region_of s) (current s) xs)"

definition quote_ok :: "tok_state \<Rightarrow> bool" where
  "quote_ok s \<longleftrightarrow> (\<not> inQuotes s \<or> quoteChar s = dquote \<or> quoteChar s = squote)"

section \<open>Command model and parser\<close>

text \<open>
  \<^verbatim>\<open>slurm.Command\<close>. The options are a Go map from option token to value, here a
  partial function.
\<close>

record Command =
  Name :: string
  Args :: "string list"
  Options :: "string \<rightharpoonup> string"

datatype parse_error = EmptyCommand | TokenizeFailed tok_error | NoTokens

text \<open>
  The loop of \<^verbatim>\<open>ParseCommand\<close> over the token index \<open>i\<close>, which an option with
  a value advances by two.
\<close>

function parse_loop :: "string list \<Rightarrow> nat \<Rightarrow> Command \<Rightarrow> Command" where
  "parse_loop toks i cmd =
     (if i < length toks then
        (if HasPrefix (toks ! i) ''-'' then
           (if i + 1 < length toks \<and> \<not> HasPrefix (toks ! (i + 1)) ''-'' then
              parse_loop toks (i + 2) (cmd\<lparr>Options := (Options cmd)(toks ! i \<mapsto> toks ! (i + 1))\<rparr>)
            else parse_loop toks (i + 1) (cmd\<lparr>Options := (Options cmd)(toks ! i \<mapsto> [])\<rparr>))
         else parse_loop toks (i + 1) (cmd\<lparr>Args := Args cmd @ [toks ! i]\<rparr>))
      else cmd)"
  by pat_completeness auto
termination
  by (relation "measure (\<lambda>(toks, i, cmd). length toks - i)") auto

declare parse_loop.simps [simp del]

definition ParseCommand :: "string \<Rightarrow> parse_error + Command" where
  "ParseCommand line0 =
     (let line = TrimSpace line0 in
      if line = [] then Inl EmptyCommand
      else case tokenize line of
        Inl e \<Rightarrow> Inl (TokenizeFailed e)
      | Inr toks \<Rightarrow>
          if length toks = 0 then Inl NoTokens
          else Inr (parse_loop toks 1 \<lparr>Name = toks ! 0, Args = [], Options = Map.empty\<rparr>))"

subsection \<open>The parsing rule as the specification states it\<close>

text \<open>
  The specification classifies the tokens after the name from left to right: a token that
  starts with \<^verbatim>\<open>-\<close> is an option key, and takes the next token as its value when
  there is one that does not start with \<^verbatim>\<open>-\<close>; any other token is a positional
  argument. \<open>spec_items\<close> is that classification, in order; the positional arguments
  are the \<open>Positional\<close> items in order, and the option map takes for each key the value
  of its last occurrence.
\<close>

datatype item = Positional string | Option string string

fun spec_items :: "string list \<Rightarrow> item list" where
  "spec_items [] = []"
| "spec_items [t] = (if HasPrefix t ''-'' then [Option t []] else [Positional t])"
| "spec_items (t # v # rest) =
     (if HasPrefix t ''-'' then
        (if \<not> HasPrefix v ''-'' then Option t v # spec_items rest
         else Option t [] # spec_items (v # rest))
      else Positional t # spec_items (v # rest))"

fun spec_args :: "item list \<Rightarrow> string list" where
  "spec_args [] = []"
| "spec_args (Positional a # its) = a # spec_args its"
| "spec_args (Option k v # its) = spec_args its"

fun spec_options :: "item list \<Rightarrow> string \<rightharpoonup> string" where
  "spec_options [] = Map.empty"
| "spec_options (Positional a # its) = spec_options its"
| "spec_options (Option k v # its) = [k \<mapsto> v] ++ spec_options its"

text \<open>The value of the last occurrence of a key, read off the items directly.\<close>

fun last_value :: "string \<Rightarrow> item list \<Rightarrow> string option" where
  "last_value k [] = None"
| "last_value k (Positional a # its) = last_value k its"
| "last_value k (Option k' v # its) =
     (case last_value k its of Some w \<Rightarrow> Some w | None \<Rightarrow> if k' = k then Some v else None)"

section \<open>Validation\<close>

text \<open>
  \<^verbatim>\<open>isValidTimeFormat\<close>: a value with a colon is accepted when it splits into two or
  three fields at the colons, whatever the fields hold; a value without a colon is accepted
  when it is not empty and every rune is a digit.
\<close>

definition isValidTimeFormat :: "string \<Rightarrow> bool" where
  "isValidTimeFormat timeStr =
     (if CHR '':'' \<in> set timeStr then
        (let parts = Split timeStr (CHR '':'') in
         if length parts < 2 \<or> length parts > 3 then False else True)
      else if \<not> list_all isDigit timeStr then False
      else length timeStr > 0)"

datatype validate_error = EmptyName | ConflictingOptions | InvalidTimeFormat string

text \<open>
  \<^verbatim>\<open>ValidateCommand\<close>; \<open>None\<close> is the \<^verbatim>\<open>nil\<close> error. The time check is
  skipped when the value of \<^verbatim>\<open>-t\<close> is the empty string
  (\<^verbatim>\<open>exists && timeLimit != ""\<close>).
\<close>

definition ValidateCommand :: "Command \<Rightarrow> validate_error option" where
  "ValidateCommand cmd =
     (if Name cmd = [] then Some EmptyName
      else if Options cmd ''-N'' \<noteq> None \<and> Options cmd ''-w'' \<noteq> None then Some ConflictingOptions
      else case Options cmd ''-t'' of
        Some timeLimit \<Rightarrow>
          if timeLimit \<noteq> [] \<and> \<not> isValidTimeFormat timeLimit
          then Some (InvalidTimeFormat timeLimit) else None
      | None \<Rightarrow> None)"

subsection \<open>Validation as the specification states it\<close>

text \<open>
  The specification asks of a \<^verbatim>\<open>-t\<close> value that it be digits only (bare minutes)
  or a colon-separated list of two or three numeric fields; a numeric field is a non-empty
  run of digits.
\<close>

definition numeric :: "string \<Rightarrow> bool" where
  "numeric s \<longleftrightarrow> s \<noteq> [] \<and> list_all isDigit s"

definition spec_time_ok :: "string \<Rightarrow> bool" where
  "spec_time_ok t \<longleftrightarrow>
     numeric t \<or>
     ((length (Split t (CHR '':'')) = 2 \<or> length (Split t (CHR '':'')) = 3) \<and>
      list_all numeric (Split t (CHR '':'')))"

definition spec_validate :: "Command \<Rightarrow> validate_error option" where
  "spec_validate cmd =
     (if Name cmd = [] then Some EmptyName
      else if Options cmd ''-N'' \<noteq> None \<and> Options cmd ''-w'' \<noteq> None then Some ConflictingOptions
      else case Options cmd ''-t'' of
        Some t \<Rightarrow> if \<not> spec_time_ok t then Some (InvalidTimeFormat t) else None
      | None \<Rightarrow> None)"

section \<open>External execution and the command registry\<close>

text \<open>
  The external programs are outside the repository. What running one does is a parameter of
  the model, the \<open>world\<close>: given how the child is run (\<open>Captured\<close> with a timeout, its
  output collected in buffers, or \<open>Interactive\<close>, on the shell's own standard streams and
  with no timeout), its name and its arguments, the world tells the fate of the child, what
  it wrote and the time it took. \<open>cmd_Run\<close> is the result of \<^verbatim>\<open>exec.Cmd.Run\<close> of the
  Go library for each fate, as package \<^verbatim>\<open>os/exec\<close> documents it: no error when the
  child exits with status zero, an \<^verbatim>\<open>*exec.ExitError\<close> when it starts and does not
  complete successfully (a non-zero status, or killed, where the exit code reads \<open>-1\<close>),
  another error when it cannot be started.
\<close>

datatype exec_mode = Captured int | Interactive

datatype child_fate = Exits int | Killed | CannotStart

record child =
  fate :: child_fate
  stdout :: string
  stderr :: string
  elapsed :: int

type_synonym world = "exec_mode \<Rightarrow> string \<Rightarrow> string list \<Rightarrow> child"

datatype run_error = ExitError int | StartError

definition cmd_Run :: "child_fate \<Rightarrow> run_error option" where
  "cmd_Run f =
     (case f of
        Exits n \<Rightarrow> if n = 0 then None else Some (ExitError n)
      | Killed \<Rightarrow> Some (ExitError (- 1))
      | CannotStart \<Rightarrow> Some StartError)"

text \<open>\<^verbatim>\<open>slurm.CommandResult\<close>.\<close>

record CommandResult =
  res_Success :: bool
  res_ExitCode :: int
  res_Output :: string
  res_Error :: string
  res_Duration :: int

text \<open>
  The errors a dispatch can return: \<open>CommandFailed\<close> is the error \<^verbatim>\<open>Client.Execute\<close>
  builds (\<^verbatim>\<open>"command failed: %v"\<close>), \<open>RunFailed\<close> the error of
  \<^verbatim>\<open>cmd.Run\<close> returned as it is by \<^verbatim>\<open>Client.ExecuteInteractive\<close>, and
  \<open>HandlerError\<close> whatever a registered handler returns.
\<close>

datatype exec_error = CommandFailed run_error | RunFailed run_error | HandlerError string

text \<open>
  \<^verbatim>\<open>Client.Execute\<close>: the child runs in captured mode under the client's timeout; the
  result is filled from the buffers, and returned together with the error when
  \<^verbatim>\<open>cmd.Run\<close> fails.
\<close>

definition Client_Execute ::
    "world \<Rightarrow> int \<Rightarrow> string \<Rightarrow> string list \<Rightarrow> CommandResult \<times> exec_error option" where
  "Client_Execute w timeout command args =
     (let c = w (Captured timeout) command args;
          err = cmd_Run (fate c);
          result = \<lparr>res_Success = (err = None), res_ExitCode = 0, res_Output = stdout c,
                    res_Error = stderr c, res_Duration = elapsed c\<rparr>
      in case err of
           Some e \<Rightarrow>
             (result\<lparr>res_ExitCode := (case e of ExitError n \<Rightarrow> n | StartError \<Rightarrow> - 1)\<rparr>,
              Some (CommandFailed e))
         | None \<Rightarrow> (result, None))"

text \<open>\<^verbatim>\<open>Client.ExecuteInteractive\<close>: the error of \<^verbatim>\<open>cmd.Run\<close>, unchanged.\<close>

definition Client_ExecuteInteractive ::
    "world \<Rightarrow> string \<Rightarrow> string list \<Rightarrow> exec_error option" where
  "Client_ExecuteInteractive w command args =
     map_option RunFailed (cmd_Run (fate (w Interactive command args)))"

text \<open>
  \<^verbatim>\<open>buildArgs\<close> walks the option map with \<^verbatim>\<open>range\<close>, whose order Go leaves
  open; \<open>order\<close> is the list of keys in the order of that walk.
\<close>

definition buildArgs :: "string list \<Rightarrow> Command \<Rightarrow> string list" where
  "buildArgs order cmd =
     foldl (\<lambda>args opt.
        case Options cmd opt of
          None \<Rightarrow> args
        | Some v \<Rightarrow> if v \<noteq> [] then args @ [opt] @ [v] else args @ [opt]) [] order
     @ Args cmd"

definition slurmCommands :: "string list" where
  "slurmCommands =
     [''srun'', ''sbatch'', ''scancel'', ''squeue'', ''sinfo'', ''sacct'',
      ''scontrol'', ''sstat'', ''sprio'', ''sshare'', ''sreport'',
      ''salloc'', ''sattach'', ''sacctmgr'']"

text \<open>
  What a dispatch does: the external programs it ran (mode, name, arguments), what the shell
  itself printed, and the error it returned.
\<close>

record outcome =
  ran :: "(exec_mode \<times> string \<times> string list) list"
  printed :: string
  error :: "exec_error option"

definition executeSystemCommand ::
    "world \<Rightarrow> int \<Rightarrow> string list \<Rightarrow> Command \<Rightarrow> outcome" where
  "executeSystemCommand w timeout order cmd =
     (if Name cmd \<in> set slurmCommands then
        (let args = buildArgs order cmd;
             (result, err) = Client_Execute w timeout (Name cmd) args
         in case err of
              Some e \<Rightarrow> \<lparr>ran = [(Captured timeout, Name cmd, args)], printed = [], error = Some e\<rparr>
            | None \<Rightarrow>
                \<lparr>ran = [(Captured timeout, Name cmd, args)],
                 printed = (if res_Output result \<noteq> [] then res_Output result else []) @
                           (if res_Error result \<noteq> [] then res_Error result else []),
                 error = None\<rparr>)
      else
        (let args = buildArgs order cmd
         in \<lparr>ran = [(Interactive, Name cmd, args)], printed = [],
             error = Client_ExecuteInteractive w (Name cmd) args\<rparr>))"

text \<open>
  The registry maps a name to a handler. What a handler does is outside the dispatch policy;
  a handler is any function from the command to an outcome.
\<close>

type_synonym handler = "Command \<Rightarrow> outcome"

definition Register :: "string \<Rightarrow> handler \<Rightarrow> (string \<rightharpoonup> handler) \<Rightarrow> (string \<rightharpoonup> handler)" where
  "Register name h commands = commands(name \<mapsto> h)"

definition Registry_Execute ::
    "(string \<rightharpoonup> handler) \<Rightarrow> world \<Rightarrow> int \<Rightarrow> string list \<Rightarrow> Command \<Rightarrow> outcome" where
  "Registry_Execute commands w timeout order cmd =
     (case commands (Name cmd) of
        None \<Rightarrow> executeSystemCommand w timeout order cmd
      | Some h \<Rightarrow> h cmd)"

section \<open>The shell's handling of one line\<close>

text \<open>
  \<^verbatim>\<open>Shell.executeCommand\<close>. \<open>aliases\<close> is the alias table of the configuration and
  \<open>execute\<close> the dispatch (\<^verbatim>\<open>s.commands.Execute\<close>). The effect of one line is
  recorded in full: the commands handed to the dispatch (none or one), what the dispatch did,
  the messages \<^verbatim>\<open>executeCommand\<close> printed itself, and the line and success flag it
  passed to \<^verbatim>\<open>history.Add\<close>, which every path calls once.
\<close>

datatype shell_message =
    ErrorParsingCommand parse_error
  | InvalidCommand validate_error
  | ErrorParsingAlias parse_error
  | ErrorExecuting exec_error

record line_effect =
  dispatched :: "Command list"
  dispatch_outcome :: "outcome option"
  messages :: "shell_message list"
  recorded :: "string \<times> bool"

definition executeCommand ::
    "(string \<rightharpoonup> string) \<Rightarrow> (Command \<Rightarrow> outcome) \<Rightarrow> string \<Rightarrow> line_effect" where
  "executeCommand aliases execute line =
     (case ParseCommand line of
        Inl e \<Rightarrow>
          \<lparr>dispatched = [], dispatch_outcome = None, messages = [ErrorParsingCommand e],
           recorded = (line, False)\<rparr>
      | Inr cmd \<Rightarrow>
          (case ValidateCommand cmd of
             Some e \<Rightarrow>
               \<lparr>dispatched = [], dispatch_outcome = None, messages = [InvalidCommand e],
                recorded = (line, False)\<rparr>
           | None \<Rightarrow>
               (case (case aliases (Name cmd) of
                        Some alias \<Rightarrow> ParseCommand (alias @ '' '' @ Join (Args cmd) '' '')
                      | None \<Rightarrow> Inr cmd) of
                  Inl e \<Rightarrow>
                    \<lparr>dispatched = [], dispatch_outcome = None, messages = [ErrorParsingAlias e],
                     recorded = (line, False)\<rparr>
                | Inr cmd' \<Rightarrow>
                    (let r = execute cmd' in
                     \<lparr>dispatched = [cmd'], dispatch_outcome = Some r,
                      messages = (case error r of Some e \<Rightarrow> [ErrorExecuting e] | None \<Rightarrow> []),
                      recorded = (line, error r = None)\<rparr>))))"

section \<open>Job options\<close>












section \<open>History\<close>

text \<open>
  A \<^verbatim>\<open>time.Time\<close> is reduced to what the history uses of it: the Unix second
  (\<^verbatim>\<open>t.Unix()\<close>, an \<^verbatim>\<open>int64\<close>) and the nanosecond within the second. A
  \<^verbatim>\<open>time.Duration\<close> is an \<^verbatim>\<open>int64\<close> count of nanoseconds.
\<close>

record Time =
  unix_sec :: "64 word"
  nsec :: nat

definition time_Unix :: "64 word \<Rightarrow> nat \<Rightarrow> Time" where
  "time_Unix s n = \<lparr>unix_sec = s, nsec = n\<rparr>"

record HistoryEntry =
  Command :: string
  Timestamp :: Time
  Success :: bool
  Duration :: "64 word"

text \<open>
  \<^verbatim>\<open>History\<close>. The path of the file is fixed; the file itself is a parameter of
  \<open>Load\<close> and \<open>Save\<close> below.
\<close>

record History =
  entries :: "HistoryEntry list"
  maxSize :: int

definition NewHistory :: "int \<Rightarrow> History" where
  "NewHistory m = \<lparr>entries = [], maxSize = m\<rparr>"

text \<open>
  The slice expression \<^verbatim>\<open>entries[len(entries)-h.maxSize:]\<close>, evaluated when the log
  is longer than \<open>maxSize\<close>: the last \<open>maxSize\<close> entries (\<open>last_n\<close>). With a
  negative \<open>maxSize\<close> the lower bound lies beyond the length and Go panics; \<open>None\<close>
  is that panic.
\<close>

definition last_n :: "nat \<Rightarrow> 'a list \<Rightarrow> 'a list" where
  "last_n n es = drop (length es - n) es"

definition keep_last :: "int \<Rightarrow> 'a list \<Rightarrow> 'a list option" where
  "keep_last m es = (if m < 0 then None else Some (last_n (nat m) es))"

text \<open>\<^verbatim>\<open>History.Add\<close>; \<open>now\<close> is the value of \<^verbatim>\<open>time.Now()\<close>.\<close>

definition Add :: "string \<Rightarrow> bool \<Rightarrow> 64 word \<Rightarrow> Time \<Rightarrow> History \<Rightarrow> History option" where
  "Add command success duration now h =
     (let entry = \<lparr>Command = TrimSpace command, Timestamp = now, Success = success,
                   Duration = duration\<rparr>
      in if Command entry = [] then Some h
         else if length (entries h) > 0 \<and> Command (last (entries h)) = Command entry then Some h
         else if int (length (entries h @ [entry])) > maxSize h then
           map_option (\<lambda>es. h\<lparr>entries := es\<rparr>) (keep_last (maxSize h) (entries h @ [entry]))
         else Some (h\<lparr>entries := entries h @ [entry]\<rparr>))"

definition Clear :: "History \<Rightarrow> History" where
  "Clear h = h\<lparr>entries := []\<rparr>"

subsection \<open>The file format\<close>

text \<open>
  \<^verbatim>\<open>%d\<close> of \<^verbatim>\<open>fmt.Sprintf\<close>: the decimal digits of an integer, after a minus sign
  when it is negative.
\<close>

definition digit_char :: "nat \<Rightarrow> char" where
  "digit_char n = char_of (48 + n)"

function show_nat :: "nat \<Rightarrow> string" where
  "show_nat n = (if n < 10 then [digit_char n] else show_nat (n div 10) @ [digit_char (n mod 10)])"
  by pat_completeness auto
termination
  by (relation "measure (\<lambda>n. n)") auto

declare show_nat.simps [simp del]

definition show_int :: "int \<Rightarrow> string" where
  "show_int i = (if i < 0 then CHR ''-'' # show_nat (nat (- i)) else show_nat (nat i))"

definition show_bool :: "bool \<Rightarrow> string" where
  "show_bool b = (if b then ''true'' else ''false'')"

text \<open>
  The line \<^verbatim>\<open>Save\<close> writes for one entry
  (\<^verbatim>\<open>"%d|%t|%d|%s\n"\<close>): \<open>entry_line\<close> without the newline,
  \<open>format_entry\<close> with it.
\<close>

definition entry_line :: "HistoryEntry \<Rightarrow> string" where
  "entry_line e =
     show_int (sint (unix_sec (Timestamp e))) @ ''|'' @ show_bool (Success e) @ ''|'' @
     show_int (sint (Duration e)) @ ''|'' @ Command e"

definition format_entry :: "HistoryEntry \<Rightarrow> string" where
  "format_entry e = entry_line e @ [newline]"

text \<open>
  The history file: absent, present but not to be opened, or present with some content.
  \<^verbatim>\<open>Save\<close> fails when the file cannot be created (\<open>creatable\<close> false) and otherwise
  replaces the content by the lines of the entries.
\<close>

datatype hist_file = Missing | Unreadable | Content string

datatype history_error = OpenFailed | ReadFailed | CreateFailed

definition Save :: "bool \<Rightarrow> History \<Rightarrow> hist_file \<Rightarrow> history_error option \<times> hist_file" where
  "Save creatable h f =
     (if \<not> creatable then (Some CreateFailed, f)
      else (None, Content (concat (map format_entry (entries h)))))"

subsection \<open>Reading the file\<close>

text \<open>
  \<^verbatim>\<open>bufio.Scanner\<close> with its default split function: the lines between newlines, the
  last one also without a newline when it is not empty, each without one trailing carriage
  return. A line that does not fit the scanner's buffer of \<open>MaxScanTokenSize\<close> bytes
  together with its newline stops the scan with an error. The buffer holds the bytes of the
  file, which is UTF-8: a rune below U+0080 takes one byte, and each of the other runes
  modelled, up to U+00FF, takes two. \<open>byte_length\<close> is the number of bytes of a string.
\<close>

fun lines_from :: "string \<Rightarrow> string \<Rightarrow> string list" where
  "lines_from cur [] = (if cur = [] then [] else [cur])"
| "lines_from cur (c # cs) =
     (if c = newline then cur # lines_from [] cs else lines_from (cur @ [c]) cs)"

definition dropCR :: "string \<Rightarrow> string" where
  "dropCR s = (if s \<noteq> [] \<and> last s = creturn then butlast s else s)"

definition MaxScanTokenSize :: nat where
  "MaxScanTokenSize = 64 * 1024"

definition rune_bytes :: "char \<Rightarrow> nat" where
  "rune_bytes c = (if (of_char c :: nat) < 128 then 1 else 2)"

definition byte_length :: "string \<Rightarrow> nat" where
  "byte_length s = sum_list (map rune_bytes s)"

text \<open>
  \<^verbatim>\<open>fmt.Sscanf\<close> with the formats \<^verbatim>\<open>%d\<close> and \<^verbatim>\<open>%t\<close>, as package
  \<^verbatim>\<open>fmt\<close> scans them. Leading blanks are skipped (a newline among them is an error) and
  the end of the input there is an error. For \<^verbatim>\<open>%d\<close>: an optional sign, then the
  longest run of digits and underscores, which must not be empty and is handed to
  \<^verbatim>\<open>strconv.ParseInt\<close> in base 10 for 64 bits, where an underscore or a value out of
  range is an error. For \<^verbatim>\<open>%t\<close>: \<^verbatim>\<open>0\<close> and \<^verbatim>\<open>1\<close> are the two values;
  \<^verbatim>\<open>t\<close> reads as true and \<^verbatim>\<open>f\<close> as false, where a following \<^verbatim>\<open>r\<close> must
  be continued to \<^verbatim>\<open>rue\<close> and a following \<^verbatim>\<open>a\<close> to \<^verbatim>\<open>alse\<close>, letters of
  either case; any other first character reads as false. Input after the value is not looked
  at. \<open>None\<close> is the error.
\<close>

definition skip_space :: "string \<Rightarrow> string option" where
  "skip_space s =
     (case dropWhile (\<lambda>c. isSpace c \<and> c \<noteq> newline) s of
        [] \<Rightarrow> Some []
      | c # r \<Rightarrow> if c = newline then None else Some (c # r))"

definition digits_val :: "string \<Rightarrow> nat" where
  "digits_val ds = foldl (\<lambda>a c. a * 10 + (of_char c - 48)) 0 ds"

definition ParseInt64 :: "bool \<Rightarrow> string \<Rightarrow> 64 word option" where
  "ParseInt64 neg ds =
     (if ds = [] \<or> \<not> list_all isDigit ds then None
      else if neg then
        (if int (digits_val ds) > 2 ^ 63 then None else Some (word_of_int (- int (digits_val ds))))
      else
        (if int (digits_val ds) \<ge> 2 ^ 63 then None else Some (word_of_int (int (digits_val ds)))))"

definition Sscanf_d :: "string \<Rightarrow> 64 word option" where
  "Sscanf_d str =
     (case skip_space str of
        None \<Rightarrow> None
      | Some [] \<Rightarrow> None
      | Some (c # r) \<Rightarrow>
          (let s = (if c = CHR ''+'' \<or> c = CHR ''-'' then r else c # r);
               tok = takeWhile (\<lambda>d. isDigit d \<or> d = CHR ''_'') s
           in if tok = [] then None else ParseInt64 (c = CHR ''-'') tok))"

fun accepts :: "string list \<Rightarrow> string \<Rightarrow> bool" where
  "accepts [] s = True"
| "accepts (cs # css) [] = False"
| "accepts (cs # css) (c # s) = (c \<in> set cs \<and> accepts css s)"

definition Sscanf_t :: "string \<Rightarrow> bool option" where
  "Sscanf_t str =
     (case skip_space str of
        None \<Rightarrow> None
      | Some [] \<Rightarrow> None
      | Some (c # r) \<Rightarrow>
          if c = CHR ''0'' then Some False
          else if c = CHR ''1'' then Some True
          else if c = CHR ''t'' \<or> c = CHR ''T'' then
            (if accepts [''rR''] r \<and> \<not> accepts [''rR'', ''uU'', ''eE''] r then None else Some True)
          else if c = CHR ''f'' \<or> c = CHR ''F'' then
            (if accepts [''aA''] r \<and> \<not> accepts [''aA'', ''lL'', ''sS'', ''eE''] r then None
             else Some False)
          else Some False)"

text \<open>\<^verbatim>\<open>parseHistoryLine\<close>; \<open>None\<close> is any of its errors.\<close>

definition parseHistoryLine :: "string \<Rightarrow> HistoryEntry option" where
  "parseHistoryLine line =
     (let parts = SplitN line (CHR ''|'') 4 in
      if length parts \<noteq> 4 then None
      else case Sscanf_d (parts ! 0) of
        None \<Rightarrow> None
      | Some timestamp \<Rightarrow>
          (case Sscanf_t (parts ! 1) of
             None \<Rightarrow> None
           | Some success \<Rightarrow>
               (case Sscanf_d (parts ! 2) of
                  None \<Rightarrow> None
                | Some duration \<Rightarrow>
                    Some \<lparr>Command = parts ! 3, Timestamp = time_Unix timestamp 0,
                          Success = success, Duration = duration\<rparr>)))"

text \<open>The loop of \<^verbatim>\<open>Load\<close> over the scanned lines: blank and invalid lines are skipped.\<close>

fun load_loop :: "HistoryEntry list \<Rightarrow> string list \<Rightarrow> HistoryEntry list" where
  "load_loop es [] = es"
| "load_loop es (scanned # rest) =
     (if TrimSpace scanned = [] then load_loop es rest
      else case parseHistoryLine (TrimSpace scanned) of
        None \<Rightarrow> load_loop es rest
      | Some entry \<Rightarrow> load_loop (es @ [entry]) rest)"

text \<open>
  \<^verbatim>\<open>History.Load\<close>. The outer \<open>None\<close> is the panic of the slice expression under a
  negative \<open>maxSize\<close>; otherwise the result is the error returned, if any, and the
  history, which is left as it was unless the whole file was read.
\<close>

definition Load :: "hist_file \<Rightarrow> History \<Rightarrow> (history_error option \<times> History) option" where
  "Load f h =
     (case f of
        Missing \<Rightarrow> Some (None, h)
      | Unreadable \<Rightarrow> Some (Some OpenFailed, h)
      | Content data \<Rightarrow>
          if list_ex (\<lambda>raw. byte_length raw \<ge> MaxScanTokenSize) (lines_from [] data)
          then Some (Some ReadFailed, h)
          else
            (let es = load_loop [] (map dropCR (lines_from [] data)) in
             if int (length es) > maxSize h then
               map_option (\<lambda>es'. (None, h\<lparr>entries := es'\<rparr>)) (keep_last (maxSize h) es)
             else Some (None, h\<lparr>entries := es\<rparr>)))"

subsection \<open>Sequences of operations\<close>

datatype hist_op = OpAdd string bool "64 word" Time | OpLoad hist_file | OpClear

fun apply_op :: "hist_op \<Rightarrow> History \<Rightarrow> History option" where
  "apply_op (OpAdd command success duration now) h = Add command success duration now h"
| "apply_op (OpLoad f) h = map_option snd (Load f h)"
| "apply_op OpClear h = Some (Clear h)"

fun run_ops :: "History \<Rightarrow> hist_op list \<Rightarrow> History option" where
  "run_ops h [] = Some h"
| "run_ops h (x # xs) = (case apply_op x h of None \<Rightarrow> None | Some h' \<Rightarrow> run_ops h' xs)"

text \<open>
  The two invariants on the stored commands: none is empty, and no two neighbours are equal.
  A file is \<open>well_kept\<close> when the entries \<open>Load\<close> decodes from it satisfy both.
\<close>

definition well_kept :: "HistoryEntry list \<Rightarrow> bool" where
  "well_kept es \<longleftrightarrow> list_all (\<lambda>e. Command e \<noteq> []) es \<and> distinct_adj (map Command es)"

definition decoded :: "hist_file \<Rightarrow> HistoryEntry list" where
  "decoded f =
     (case f of Content data \<Rightarrow> load_loop [] (map dropCR (lines_from [] data)) | _ \<Rightarrow> [])"

fun well_kept_op :: "hist_op \<Rightarrow> bool" where
  "well_kept_op (OpLoad f) = well_kept (decoded f)"
| "well_kept_op _ = True"

text \<open>What \<^verbatim>\<open>Load\<close> makes of an entry: the time stamp cut to the second.\<close>

definition to_second :: "HistoryEntry \<Rightarrow> HistoryEntry" where
  "to_second e = e\<lparr>Timestamp := time_Unix (unix_sec (Timestamp e)) 0\<rparr>"

text \<open>
  The commands that survive the scan and the trimming of the line: no newline inside, and no
  white space at the end. No command stored by \<^verbatim>\<open>Add\<close> or \<^verbatim>\<open>Load\<close>
  ends in white space, and a line read from the terminal holds no newline.
\<close>

definition storable :: "string \<Rightarrow> bool" where
  "storable c \<longleftrightarrow> newline \<notin> set c \<and> (c = [] \<or> \<not> isSpace (last c))"

section \<open>Tokenizer: properties\<close>

lemma quote_ok_step: "quote_ok s \<Longrightarrow> quote_ok (tok_step s c)"
  by (auto simp: quote_ok_def tok_step_def)

lemma chars_distinct [simp]:
  "bslash \<noteq> dquote" "bslash \<noteq> squote" "bslash \<noteq> space" "bslash \<noteq> tab"
  "dquote \<noteq> squote" "dquote \<noteq> space" "dquote \<noteq> tab" "squote \<noteq> space" "squote \<noteq> tab"
  "space \<noteq> tab" "dquote \<noteq> bslash" "squote \<noteq> bslash" "space \<noteq> bslash" "tab \<noteq> bslash"
  "squote \<noteq> dquote" "space \<noteq> dquote" "tab \<noteq> dquote" "space \<noteq> squote" "tab \<noteq> squote"
  "tab \<noteq> space"
  by (simp_all add: bslash_def dquote_def squote_def space_def tab_def)

lemma spec_result_map: "spec_result pre (map_option (\<lambda>ts. e @ ts) r) = spec_result (pre @ e) r"
  by (cases r) (simp_all add: spec_result_def)

lemma tok_refines_resume:
  "quote_ok s \<Longrightarrow>
   tok_finish (foldl tok_step s xs) = spec_result (tokens s) (spec_resume s xs)"
proof (induction xs arbitrary: s)
  case Nil
  then show ?case
    by (auto simp: tok_finish_def spec_result_def spec_resume_def region_of_def emit_def)
next
  case (Cons c xs)
  have ok: "quote_ok (tok_step s c)" using Cons.prems by (rule quote_ok_step)
  have step: "spec_result (tokens (tok_step s c)) (spec_resume (tok_step s c) xs) =
              spec_result (tokens s) (spec_resume s (c # xs))"
  proof (cases "escaped s")
    case True
    then show ?thesis
      by (simp add: tok_step_def spec_resume_def region_of_def)
  next
    case ne: False
    show ?thesis
    proof (cases "c = bslash")
      case True
      with ne show ?thesis
        by (cases xs) (simp_all add: tok_step_def spec_resume_def region_of_def)
    next
      case nb: False
      show ?thesis
      proof (cases "inQuotes s")
        case True
        with ne nb Cons.prems show ?thesis
          by (auto simp add: tok_step_def spec_resume_def region_of_def quote_ok_def)
      next
        case nq: False
        show ?thesis
        proof (cases "c = dquote \<or> c = squote")
          case True
          with ne nb nq show ?thesis
            by (auto simp add: tok_step_def spec_resume_def region_of_def)
        next
          case nquote: False
          show ?thesis
          proof (cases "c = space \<or> c = tab")
            case True
            with ne nb nq nquote show ?thesis
              by (auto simp add: tok_step_def spec_resume_def region_of_def spec_result_map emit_def)
          next
            case False
            with ne nb nq nquote show ?thesis
              by (simp add: tok_step_def spec_resume_def region_of_def)
          qed
        qed
      qed
    qed
  qed
  show ?case using Cons.IH [OF ok] step by simp
qed

lemma tokenize_spec:
  "tokenize line = spec_result [] (spec_tokens Outside [] line)"
  using tok_refines_resume [of tok_init line]
  by (simp add: tokenize_def quote_ok_def tok_init_def spec_resume_def region_of_def)

lemma spec_none_iff:
  "(spec_tokens m cur xs = None) = (spec_end_region m xs \<noteq> Outside)"
proof (induction m cur xs rule: spec_tokens.induct)
  case (1 m cur)
  then show ?case by (cases m) simp_all
next
  case (2 m cur c rest)
  show ?case
  proof (cases "c = bslash")
    case True
    with 2 show ?thesis by (cases rest; cases m) simp_all
  next
    case False
    with 2 show ?thesis by (cases m) auto
  qed
qed

lemma trailing_bslash:
  "\<not> escaped (foldl tok_step tok_init line) \<Longrightarrow> tokenize (line @ [bslash]) = tokenize line"
  by (simp add: tokenize_def tok_step_def tok_finish_def)

lemmas tokenize_eval =
  tokenize_def tok_finish_def tok_init_def tok_step_def bslash_def dquote_def squote_def
  space_def tab_def

text \<open>
  Claim C6. \<^verbatim>\<open>tokenize\<close> computes the scan the specification describes: its result
  is that of \<open>spec_tokens\<close> started outside any region with no pending token. It fails,
  with the unclosed-quote error, exactly when the input ends inside a quoted region. The empty
  input gives no token. A backslash at the very end of the input, not itself escaped, adds no
  character and no error: the result is that of the line without it. The two lines of the
  specification, \<^verbatim>\<open>a "b c" d\<close> and \<^verbatim>\<open>a\ b\<close>, give the tokens it names.
\<close>

theorem tokenize_implements_scan:
  "tokenize line = spec_result [] (spec_tokens Outside [] line) \<and>
   (tokenize line = Inl UnclosedQuote) = (spec_end_region Outside line \<noteq> Outside) \<and>
   tokenize [] = Inr [] \<and>
   (\<not> escaped (foldl tok_step tok_init line) \<longrightarrow>
      tokenize (line @ [bslash]) = tokenize line) \<and>
   tokenize (''a '' @ [dquote] @ ''b c'' @ [dquote] @ '' d'') = Inr [''a'', ''b c'', ''d''] \<and>
   tokenize (''a'' @ [bslash] @ '' b'') = Inr [''a b'']"
proof -
  have "(tokenize line = Inl UnclosedQuote) = (spec_tokens Outside [] line = None)"
    by (simp add: tokenize_spec spec_result_def split: option.splits)
  then have "(tokenize line = Inl UnclosedQuote) = (spec_end_region Outside line \<noteq> Outside)"
    by (simp add: spec_none_iff)
  moreover have "tokenize [] = Inr []"
    by (simp add: tokenize_eval)
  moreover have "tokenize (''a '' @ [dquote] @ ''b c'' @ [dquote] @ '' d'') = Inr [''a'', ''b c'', ''d'']"
    by (simp add: tokenize_eval)
  moreover have "tokenize (''a'' @ [bslash] @ '' b'') = Inr [''a b'']"
    by (simp add: tokenize_eval)
  ultimately show ?thesis
    using tokenize_spec [of line] trailing_bslash [of line] by blast
qed

theorem tokenize_implements_scan_witness:
  "\<not> escaped (foldl tok_step tok_init ''ls'') \<and>
   tokenize (''ls'' @ [bslash]) = Inr [''ls''] \<and>
   spec_tokens Outside [] ''ls'' = Some [''ls''] \<and>
   spec_end_region Outside ''ls'' = Outside"
  using tokenize_implements_scan [of "''ls''"]
  by (simp add: tokenize_eval spec_result_def emit_def)

section \<open>Command model and parser: properties\<close>

lemma spec_options_last: "spec_options its k = last_value k its"
  by (induction its rule: spec_options.induct) (auto simp: map_add_def split: option.splits)

lemma map_add_single: "m ++ ([k \<mapsto> v] ++ M) = (m(k \<mapsto> v)) ++ M"
  by (rule ext) (simp add: map_add_def split: option.splits)

lemma parse_loop_fields:
  "i \<le> length toks \<Longrightarrow>
   Name (parse_loop toks i cmd) = Name cmd \<and>
   Args (parse_loop toks i cmd) = Args cmd @ spec_args (spec_items (drop i toks)) \<and>
   Options (parse_loop toks i cmd) = Options cmd ++ spec_options (spec_items (drop i toks))"
proof (induction toks i cmd rule: parse_loop.induct)
  case (1 toks i cmd)
  show ?case
  proof (cases "i < length toks")
    case False
    with 1 show ?thesis by (simp add: parse_loop.simps)
  next
    case lt: True
    then have d: "drop i toks = toks ! i # drop (Suc i) toks"
      by (simp add: Cons_nth_drop_Suc)
    show ?thesis
    proof (cases "HasPrefix (toks ! i) ''-''")
      case False
      have "parse_loop toks i cmd = parse_loop toks (i + 1) (cmd\<lparr>Args := Args cmd @ [toks ! i]\<rparr>)"
        using lt False by (subst parse_loop.simps) simp
      moreover note "1.IH"(3) [OF lt False]
      ultimately show ?thesis using lt False
        by (cases "drop (Suc i) toks") (simp_all add: d)
    next
      case pre: True
      show ?thesis
      proof (cases "i + 1 < length toks \<and> \<not> HasPrefix (toks ! (i + 1)) ''-''")
        case True
        then have d2: "drop (Suc i) toks = toks ! (i + 1) # drop (i + 2) toks"
          by (simp add: Cons_nth_drop_Suc)
        have "parse_loop toks i cmd =
              parse_loop toks (i + 2) (cmd\<lparr>Options := (Options cmd)(toks ! i \<mapsto> toks ! (i + 1))\<rparr>)"
          using lt pre True by (subst parse_loop.simps) simp
        moreover note "1.IH"(1) [OF lt pre True]
        ultimately show ?thesis using pre True
          by (simp add: d d2 map_add_single del: fun_upd_apply)
      next
        case False
        have "parse_loop toks i cmd =
              parse_loop toks (i + 1) (cmd\<lparr>Options := (Options cmd)(toks ! i \<mapsto> [])\<rparr>)"
          using lt pre False by (subst parse_loop.simps) auto
        moreover note "1.IH"(2) [OF lt pre False]
        moreover have "spec_items (toks ! i # drop (Suc i) toks) =
            Option (toks ! i) [] # spec_items (drop (Suc i) toks)"
        proof (cases "drop (Suc i) toks")
          case Nil
          with pre show ?thesis by simp
        next
          case (Cons v rest)
          then have "v = toks ! (i + 1)" and "i + 1 < length toks"
            by (metis Suc_eq_plus1 nth_via_drop, metis Suc_eq_plus1 drop_eq_Nil2 list.distinct(1) not_le_imp_less)
          with False have "HasPrefix v ''-''" by simp
          with pre Cons show ?thesis by simp
        qed
        ultimately show ?thesis using lt
          by (simp add: d map_add_single del: fun_upd_apply)
      qed
    qed
  qed
qed

lemma parse_loop_spec:
  "i \<le> length toks \<Longrightarrow>
   parse_loop toks i cmd =
     \<lparr>Name = Name cmd, Args = Args cmd @ spec_args (spec_items (drop i toks)),
      Options = Options cmd ++ spec_options (spec_items (drop i toks))\<rparr>"
  using parse_loop_fields [of i toks cmd] by (intro Command.equality) simp_all

lemma ParseCommand_spec:
  "ParseCommand line =
     (if TrimSpace line = [] then Inl EmptyCommand
      else case tokenize (TrimSpace line) of
        Inl e \<Rightarrow> Inl (TokenizeFailed e)
      | Inr [] \<Rightarrow> Inl NoTokens
      | Inr (t # ts) \<Rightarrow>
          Inr \<lparr>Name = t, Args = spec_args (spec_items ts),
               Options = spec_options (spec_items ts)\<rparr>)"
  by (simp add: ParseCommand_def Let_def parse_loop_spec split: sum.splits list.splits)

lemma HasPrefix_dash: "HasPrefix s ''-'' \<longleftrightarrow> (case s of [] \<Rightarrow> False | c # cs \<Rightarrow> c = CHR ''-'')"
  by (cases s) (auto simp: HasPrefix_def)

lemmas parse_eval =
  ParseCommand_spec TrimSpace_def isSpace_def HasPrefix_dash tokenize_eval

text \<open>
  Claim C7. \<^verbatim>\<open>ParseCommand\<close> on a line that is not blank and tokenizes to at
  least one token makes the first token the name, and treats the later tokens by the rule of
  the specification (\<open>spec_items\<close>): the positional arguments are the tokens not taken as
  an option key or value, in order, and each option key maps to the value of its last
  occurrence (\<open>last_value\<close>). A blank line, a line that does not tokenize, and a line
  that tokenizes to no token at all (two quote characters, say) are the three errors. The two
  lines of the specification parse as it says, and a repeated key keeps its last value.
\<close>

theorem ParseCommand_rule:
  "ParseCommand line =
     (if TrimSpace line = [] then Inl EmptyCommand
      else case tokenize (TrimSpace line) of
        Inl e \<Rightarrow> Inl (TokenizeFailed e)
      | Inr [] \<Rightarrow> Inl NoTokens
      | Inr (t # ts) \<Rightarrow>
          Inr \<lparr>Name = t, Args = spec_args (spec_items ts),
               Options = (\<lambda>k. last_value k (spec_items ts))\<rparr>) \<and>
   ParseCommand ''run -N 2 hostname'' =
     Inr \<lparr>Name = ''run'', Args = [''hostname''], Options = [''-N'' \<mapsto> ''2'']\<rparr> \<and>
   ParseCommand ''run -v hostname'' =
     Inr \<lparr>Name = ''run'', Args = [], Options = [''-v'' \<mapsto> ''hostname'']\<rparr> \<and>
   ParseCommand ''run -N 2 -N 4 x'' =
     Inr \<lparr>Name = ''run'', Args = [''x''], Options = [''-N'' \<mapsto> ''4'']\<rparr>"
proof -
  have opts: "spec_options its = (\<lambda>k. last_value k its)" for its
    by (rule ext) (rule spec_options_last)
  have "ParseCommand line =
     (if TrimSpace line = [] then Inl EmptyCommand
      else case tokenize (TrimSpace line) of
        Inl e \<Rightarrow> Inl (TokenizeFailed e)
      | Inr [] \<Rightarrow> Inl NoTokens
      | Inr (t # ts) \<Rightarrow>
          Inr \<lparr>Name = t, Args = spec_args (spec_items ts),
               Options = (\<lambda>k. last_value k (spec_items ts))\<rparr>)"
    unfolding ParseCommand_spec opts by (rule refl)
  moreover have "ParseCommand ''run -N 2 hostname'' =
     Inr \<lparr>Name = ''run'', Args = [''hostname''], Options = [''-N'' \<mapsto> ''2'']\<rparr>"
    by (simp add: parse_eval)
  moreover have "ParseCommand ''run -v hostname'' =
     Inr \<lparr>Name = ''run'', Args = [], Options = [''-v'' \<mapsto> ''hostname'']\<rparr>"
    by (simp add: parse_eval)
  moreover have "ParseCommand ''run -N 2 -N 4 x'' =
     Inr \<lparr>Name = ''run'', Args = [''x''], Options = [''-N'' \<mapsto> ''4'']\<rparr>"
    by (simp add: parse_eval)
  ultimately show ?thesis by blast
qed

theorem ParseCommand_rule_witness:
  "ParseCommand ''  cancel 17 -f'' =
     Inr \<lparr>Name = ''cancel'', Args = [''17''], Options = [''-f'' \<mapsto> []]\<rparr> \<and>
   ParseCommand [dquote, dquote] = Inl NoTokens"
  using ParseCommand_rule [of "''  cancel 17 -f''"] ParseCommand_rule [of "[dquote, dquote]"]
  by (simp add: parse_eval)

section \<open>Validation: properties\<close>

lemma length_split_from: "length (split_from sep cur s) = Suc (count_list s sep)"
  by (induction s arbitrary: cur) simp_all

lemma length_Split: "length (Split s sep) = Suc (count_list s sep)"
  by (simp add: Split_def length_split_from)

lemma count_list_pos: "x \<in> set xs \<Longrightarrow> 0 < count_list xs x"
  by (induction xs) auto

lemma isValidTimeFormat_iff:
  "isValidTimeFormat t \<longleftrightarrow>
     (if CHR '':'' \<in> set t then count_list t (CHR '':'') \<le> 2
      else t \<noteq> [] \<and> list_all isDigit t)"
  using count_list_pos [of "CHR '':''" t]
  by (auto simp: isValidTimeFormat_def Let_def length_Split)

lemma isDigit_not_colon: "isDigit c \<Longrightarrow> c \<noteq> CHR '':''"
  by (auto simp: isDigit_def)

lemma spec_time_ok_valid: "spec_time_ok t \<Longrightarrow> t \<noteq> [] \<and> isValidTimeFormat t"
proof -
  assume ok: "spec_time_ok t"
  show ?thesis
  proof (cases "numeric t")
    case True
    then have "CHR '':'' \<notin> set t"
      using isDigit_not_colon by (auto simp: numeric_def list_all_iff)
    with True show ?thesis by (simp add: isValidTimeFormat_iff numeric_def)
  next
    case False
    with ok have len: "count_list t (CHR '':'') = 1 \<or> count_list t (CHR '':'') = 2"
      by (auto simp: spec_time_ok_def length_Split)
    then have "t \<noteq> []" by auto
    moreover from len have "CHR '':'' \<in> set t"
      by (metis count_list_0_iff one_neq_zero zero_neq_numeral)
    ultimately show ?thesis using len by (auto simp: isValidTimeFormat_iff)
  qed
qed

lemma validate_sound: "ValidateCommand cmd = Some e \<Longrightarrow> spec_validate cmd = Some e"
  using spec_time_ok_valid
  by (auto simp: ValidateCommand_def spec_validate_def split: if_splits option.splits)

lemma spec_accepts_validate: "spec_validate cmd = None \<Longrightarrow> ValidateCommand cmd = None"
  using spec_time_ok_valid
  by (auto simp: ValidateCommand_def spec_validate_def split: if_splits option.splits)

lemmas validate_eval =
  ValidateCommand_def spec_validate_def isValidTimeFormat_def spec_time_ok_def numeric_def
  Split_def isDigit_def Let_def

text \<open>
  Claim C1, as the specification states it, fails on the code: a \<^verbatim>\<open>-t\<close> value
  with a colon is accepted whatever its fields hold, and an empty \<^verbatim>\<open>-t\<close> value is
  never checked. The command \<^verbatim>\<open>run -t a:b\<close> and a command whose \<^verbatim>\<open>-t\<close>
  has the empty value both pass \<^verbatim>\<open>ValidateCommand\<close>, while the conditions of the
  specification reject them with the time-format error.
\<close>

theorem ValidateCommand_spec_counterexample:
  "ValidateCommand \<lparr>Name = ''run'', Args = [], Options = [''-t'' \<mapsto> ''a:b'']\<rparr> = None \<and>
   spec_validate \<lparr>Name = ''run'', Args = [], Options = [''-t'' \<mapsto> ''a:b'']\<rparr> =
     Some (InvalidTimeFormat ''a:b'') \<and>
   ValidateCommand \<lparr>Name = ''history'', Args = [], Options = [''-t'' \<mapsto> []]\<rparr> = None \<and>
   spec_validate \<lparr>Name = ''history'', Args = [], Options = [''-t'' \<mapsto> []]\<rparr> =
     Some (InvalidTimeFormat [])"
  by (simp add: validate_eval)

text \<open>
  Claim C1, amended. \<^verbatim>\<open>ValidateCommand\<close> fails when the name is empty; otherwise with
  the conflicting-options error when both \<^verbatim>\<open>-N\<close> and \<^verbatim>\<open>-w\<close> are keys;
  otherwise with the time-format error when \<^verbatim>\<open>-t\<close> has a non-empty value that
  either holds a colon and more than two of them, or holds no colon and a character that is
  not a digit. It succeeds on every other command, so also on an empty \<^verbatim>\<open>-t\<close> value
  and on colon-separated fields that are not numeric. Every command it rejects is rejected by the
  conditions of the specification, with the same error. Of the three examples of the
  specification, the first two fail and the third succeeds, as it says.
\<close>

theorem ValidateCommand_conditions:
  "ValidateCommand cmd =
     (if Name cmd = [] then Some EmptyName
      else if ''-N'' \<in> dom (Options cmd) \<and> ''-w'' \<in> dom (Options cmd)
        then Some ConflictingOptions
      else case Options cmd ''-t'' of
        None \<Rightarrow> None
      | Some t \<Rightarrow>
          if t = [] then None
          else if CHR '':'' \<in> set t then
            (if count_list t (CHR '':'') \<le> 2 then None else Some (InvalidTimeFormat t))
          else if list_all isDigit t then None
          else Some (InvalidTimeFormat t)) \<and>
   (ValidateCommand cmd = Some e \<longrightarrow> spec_validate cmd = Some e) \<and>
   ValidateCommand \<lparr>Name = ''run'', Args = [],
       Options = [''-N'' \<mapsto> ''2'', ''-w'' \<mapsto> ''node1'']\<rparr> = Some ConflictingOptions \<and>
   ValidateCommand \<lparr>Name = ''run'', Args = [], Options = [''-t'' \<mapsto> ''abc'']\<rparr> =
     Some (InvalidTimeFormat ''abc'') \<and>
   ValidateCommand \<lparr>Name = ''run'', Args = [], Options = [''-t'' \<mapsto> ''10:00'']\<rparr> = None"
proof -
  have "ValidateCommand cmd =
     (if Name cmd = [] then Some EmptyName
      else if ''-N'' \<in> dom (Options cmd) \<and> ''-w'' \<in> dom (Options cmd)
        then Some ConflictingOptions
      else case Options cmd ''-t'' of
        None \<Rightarrow> None
      | Some t \<Rightarrow>
          if t = [] then None
          else if CHR '':'' \<in> set t then
            (if count_list t (CHR '':'') \<le> 2 then None else Some (InvalidTimeFormat t))
          else if list_all isDigit t then None
          else Some (InvalidTimeFormat t))"
    by (auto simp: ValidateCommand_def isValidTimeFormat_iff split: option.splits)
  moreover have "ValidateCommand cmd = Some e \<longrightarrow> spec_validate cmd = Some e"
    using validate_sound by blast
  moreover have "ValidateCommand \<lparr>Name = ''run'', Args = [],
       Options = [''-N'' \<mapsto> ''2'', ''-w'' \<mapsto> ''node1'']\<rparr> = Some ConflictingOptions"
    by (simp add: validate_eval)
  moreover have "ValidateCommand \<lparr>Name = ''run'', Args = [], Options = [''-t'' \<mapsto> ''abc'']\<rparr> =
     Some (InvalidTimeFormat ''abc'')"
    by (simp add: validate_eval)
  moreover have "ValidateCommand \<lparr>Name = ''run'', Args = [], Options = [''-t'' \<mapsto> ''10:00'']\<rparr> = None"
    by (simp add: validate_eval)
  ultimately show ?thesis by blast
qed

theorem ValidateCommand_conditions_witness:
  "ValidateCommand \<lparr>Name = ''run'', Args = [], Options = [''-t'' \<mapsto> ''1:2:3:4'']\<rparr> =
     Some (InvalidTimeFormat ''1:2:3:4'') \<and>
   spec_validate \<lparr>Name = ''run'', Args = [], Options = [''-t'' \<mapsto> ''1:2:3:4'']\<rparr> =
     Some (InvalidTimeFormat ''1:2:3:4'')"
  using ValidateCommand_conditions
    [of "\<lparr>Name = ''run'', Args = [], Options = [''-t'' \<mapsto> ''1:2:3:4'']\<rparr>"
        "InvalidTimeFormat ''1:2:3:4''"]
  by (simp add: validate_eval)

section \<open>External execution and the command registry: properties\<close>

lemma executeSystemCommand_slurm:
  "Name cmd \<in> set slurmCommands \<Longrightarrow>
   executeSystemCommand w timeout order cmd =
     (let c = w (Captured timeout) (Name cmd) (buildArgs order cmd) in
      \<lparr>ran = [(Captured timeout, Name cmd, buildArgs order cmd)],
       printed = (if fate c = Exits 0 then stdout c @ stderr c else []),
       error = map_option CommandFailed (cmd_Run (fate c))\<rparr>)"
  by (auto simp: executeSystemCommand_def Client_Execute_def Let_def cmd_Run_def
      split: option.splits child_fate.splits)

lemma executeSystemCommand_other:
  "Name cmd \<notin> set slurmCommands \<Longrightarrow>
   executeSystemCommand w timeout order cmd =
     \<lparr>ran = [(Interactive, Name cmd, buildArgs order cmd)], printed = [],
      error = map_option RunFailed (cmd_Run (fate (w Interactive (Name cmd) (buildArgs order cmd))))\<rparr>"
  by (simp add: executeSystemCommand_def Client_ExecuteInteractive_def Let_def)

lemmas exec_eval =
  Registry_Execute_def executeSystemCommand_def Client_Execute_def
  Client_ExecuteInteractive_def cmd_Run_def buildArgs_def slurmCommands_def
  Let_def

text \<open>
  Claim C9, as the specification states it, fails on the code: the captured output is echoed
  only when the child succeeds. When \<^verbatim>\<open>squeue -u bob\<close> exits with status 1 after
  writing to both streams, \<^verbatim>\<open>executeSystemCommand\<close> returns the error before the
  two \<^verbatim>\<open>fmt.Print\<close> calls and the shell prints nothing of what was captured.
\<close>

theorem captured_echo_counterexample:
  "''squeue'' \<in> set slurmCommands \<and>
   stdout ((\<lambda>m n a. \<lparr>fate = Exits 1, stdout = ''JOBID'', stderr = ''squeue: error'', elapsed = 5\<rparr>)
      (Captured 30) ''squeue'' [''-u'', ''bob'']) = ''JOBID'' \<and>
   Registry_Execute Map.empty
      (\<lambda>m n a. \<lparr>fate = Exits 1, stdout = ''JOBID'', stderr = ''squeue: error'', elapsed = 5\<rparr>)
      30 [''-u''] \<lparr>Name = ''squeue'', Args = [], Options = [''-u'' \<mapsto> ''bob'']\<rparr> =
     \<lparr>ran = [(Captured 30, ''squeue'', [''-u'', ''bob''])], printed = [],
      error = Some (CommandFailed (ExitError 1))\<rparr>"
  by (simp add: exec_eval)

text \<open>
  Claim C9, amended. A command whose name has no handler and is on the allow-list
  (\<open>slurmCommands\<close>: srun, sbatch, scancel, squeue, sinfo, sacct, scontrol, sstat, sprio,
  sshare, sreport, salloc, sattach, sacctmgr) is run once, in captured mode under the
  client's timeout, and nothing else is run. The dispatch succeeds exactly when the child
  exits with status zero, and only then echoes the captured standard output followed by the
  captured standard error, unchanged; on any failure (non-zero status, kill at the timeout,
  no start) it returns the error and echoes nothing. The line \<^verbatim>\<open>squeue -u bob\<close>,
  with handlers registered for \<^verbatim>\<open>run\<close> and \<^verbatim>\<open>status\<close> only, takes this path.
\<close>

theorem allow_listed_runs_captured:
  "(commands (Name cmd) = None \<and> Name cmd \<in> set slurmCommands \<longrightarrow>
      Registry_Execute commands w timeout order cmd =
        \<lparr>ran = [(Captured timeout, Name cmd, buildArgs order cmd)],
         printed =
           (if fate (w (Captured timeout) (Name cmd) (buildArgs order cmd)) = Exits 0
            then stdout (w (Captured timeout) (Name cmd) (buildArgs order cmd)) @
                 stderr (w (Captured timeout) (Name cmd) (buildArgs order cmd))
            else []),
         error =
           (if fate (w (Captured timeout) (Name cmd) (buildArgs order cmd)) = Exits 0
            then None
            else map_option CommandFailed
                   (cmd_Run (fate (w (Captured timeout) (Name cmd) (buildArgs order cmd)))))\<rparr>) \<and>
   ParseCommand ''squeue -u bob'' =
     Inr \<lparr>Name = ''squeue'', Args = [], Options = [''-u'' \<mapsto> ''bob'']\<rparr> \<and>
   ran (Registry_Execute (Register ''status'' h2 (Register ''run'' h1 Map.empty)) w timeout
          [''-u''] \<lparr>Name = ''squeue'', Args = [], Options = [''-u'' \<mapsto> ''bob'']\<rparr>) =
     [(Captured timeout, ''squeue'', [''-u'', ''bob''])]"
proof -
  have "Registry_Execute commands w timeout order cmd =
        \<lparr>ran = [(Captured timeout, Name cmd, buildArgs order cmd)],
         printed =
           (if fate (w (Captured timeout) (Name cmd) (buildArgs order cmd)) = Exits 0
            then stdout (w (Captured timeout) (Name cmd) (buildArgs order cmd)) @
                 stderr (w (Captured timeout) (Name cmd) (buildArgs order cmd))
            else []),
         error =
           (if fate (w (Captured timeout) (Name cmd) (buildArgs order cmd)) = Exits 0
            then None
            else map_option CommandFailed
                   (cmd_Run (fate (w (Captured timeout) (Name cmd) (buildArgs order cmd)))))\<rparr>"
    if "commands (Name cmd) = None" and "Name cmd \<in> set slurmCommands"
    using that
    by (simp add: Registry_Execute_def executeSystemCommand_slurm Let_def
        cmd_Run_def)
  moreover have "ParseCommand ''squeue -u bob'' =
     Inr \<lparr>Name = ''squeue'', Args = [], Options = [''-u'' \<mapsto> ''bob'']\<rparr>"
    by (simp add: parse_eval)
  moreover have "ran (Registry_Execute (Register ''status'' h2 (Register ''run'' h1 Map.empty))
          w timeout [''-u''] \<lparr>Name = ''squeue'', Args = [], Options = [''-u'' \<mapsto> ''bob'']\<rparr>) =
     [(Captured timeout, ''squeue'', [''-u'', ''bob''])]"
    by (simp add: exec_eval Register_def split: option.splits)
  ultimately show ?thesis by blast
qed

theorem allow_listed_runs_captured_witness:
  "(Map.empty :: string \<rightharpoonup> handler) ''sinfo'' = None \<and> ''sinfo'' \<in> set slurmCommands \<and>
   Registry_Execute Map.empty
      (\<lambda>m n a. \<lparr>fate = Exits 0, stdout = ''PARTITION'', stderr = ''warning'', elapsed = 5\<rparr>)
      30 [] \<lparr>Name = ''sinfo'', Args = [''-N''], Options = Map.empty\<rparr> =
     \<lparr>ran = [(Captured 30, ''sinfo'', [''-N''])], printed = ''PARTITIONwarning'',
      error = None\<rparr>"
  using allow_listed_runs_captured
    [of Map.empty "\<lparr>Name = ''sinfo'', Args = [''-N''], Options = Map.empty\<rparr>"
        "\<lambda>m n a. \<lparr>fate = Exits 0, stdout = ''PARTITION'', stderr = ''warning'', elapsed = 5\<rparr>"
        30 "[]"]
  by (simp add: slurmCommands_def buildArgs_def)

text \<open>
  Claim C2, as the specification states it, fails on the code: \<^verbatim>\<open>ExecuteInteractive\<close>
  returns the error of \<^verbatim>\<open>cmd.Run\<close> as it is, and that error is not nil when the child
  exits with a non-zero status. The unregistered program \<^verbatim>\<open>false\<close>, not on the
  allow-list, starts and exits with status 1, and the dispatch returns an error.
\<close>

theorem interactive_exit_counterexample:
  "''false'' \<notin> set slurmCommands \<and>
   Registry_Execute Map.empty
      (\<lambda>m n a. \<lparr>fate = Exits 1, stdout = [], stderr = [], elapsed = 5\<rparr>)
      30 [] \<lparr>Name = ''false'', Args = [], Options = Map.empty\<rparr> =
     \<lparr>ran = [(Interactive, ''false'', [])], printed = [],
      error = Some (RunFailed (ExitError 1))\<rparr>"
  by (simp add: exec_eval)

text \<open>
  Claim C2, amended. A command whose name has no handler and is not on the allow-list is run
  once, in interactive mode (the child on the shell's own standard streams, no timeout), and
  nothing else is run; the shell itself prints nothing. The dispatch returns the error of
  running the child unchanged: none when the child exits with status zero, an error when the
  child cannot be started, and an error too when the child starts and exits with a non-zero
  status.
\<close>

theorem unlisted_runs_interactive:
  "commands (Name cmd) = None \<and> Name cmd \<notin> set slurmCommands \<longrightarrow>
     Registry_Execute commands w timeout order cmd =
       \<lparr>ran = [(Interactive, Name cmd, buildArgs order cmd)], printed = [],
        error =
          (case fate (w Interactive (Name cmd) (buildArgs order cmd)) of
             Exits n \<Rightarrow> if n = 0 then None else Some (RunFailed (ExitError n))
           | Killed \<Rightarrow> Some (RunFailed (ExitError (- 1)))
           | CannotStart \<Rightarrow> Some (RunFailed StartError))\<rparr>"
  by (simp add: Registry_Execute_def executeSystemCommand_other cmd_Run_def
      split: child_fate.splits)

theorem unlisted_runs_interactive_witness:
  "(Map.empty :: string \<rightharpoonup> handler) ''vim'' = None \<and> ''vim'' \<notin> set slurmCommands \<and>
   Registry_Execute Map.empty
      (\<lambda>m n a. \<lparr>fate = CannotStart, stdout = [], stderr = [], elapsed = 0\<rparr>)
      30 [] \<lparr>Name = ''vim'', Args = [''job.sh''], Options = Map.empty\<rparr> =
     \<lparr>ran = [(Interactive, ''vim'', [''job.sh''])], printed = [],
      error = Some (RunFailed StartError)\<rparr>"
  using unlisted_runs_interactive
    [of Map.empty "\<lparr>Name = ''vim'', Args = [''job.sh''], Options = Map.empty\<rparr>"
        "\<lambda>m n a. \<lparr>fate = CannotStart, stdout = [], stderr = [], elapsed = 0\<rparr>" 30 "[]"]
  by (simp add: slurmCommands_def buildArgs_def)

section \<open>The shell's handling of one line: properties\<close>

lemmas shell_eval = executeCommand_def parse_eval validate_eval

text \<open>
  Claim C3, as the specification states it, fails on the code: \<^verbatim>\<open>ValidateCommand\<close>
  is called once, on the command parsed from the line, before the alias table is consulted;
  the command that replaces it is dispatched unchecked. With the alias
  \<^verbatim>\<open>big = "srun -N 2 -w node1"\<close> the line \<^verbatim>\<open>big hostname\<close> dispatches a
  command that holds both \<^verbatim>\<open>-N\<close> and \<^verbatim>\<open>-w\<close>, and the external program runs.
\<close>

theorem alias_unvalidated_counterexample:
  "ValidateCommand \<lparr>Name = ''srun'', Args = [''hostname''],
       Options = [''-N'' \<mapsto> ''2'', ''-w'' \<mapsto> ''node1'']\<rparr> = Some ConflictingOptions \<and>
   dispatched (executeCommand [''big'' \<mapsto> ''srun -N 2 -w node1'']
      (Registry_Execute Map.empty
         (\<lambda>m n a. \<lparr>fate = Exits 0, stdout = [], stderr = [], elapsed = 5\<rparr>) 30 [''-N'', ''-w''])
      ''big hostname'') =
     [\<lparr>Name = ''srun'', Args = [''hostname''],
       Options = [''-N'' \<mapsto> ''2'', ''-w'' \<mapsto> ''node1'']\<rparr>] \<and>
   map_option ran (dispatch_outcome (executeCommand [''big'' \<mapsto> ''srun -N 2 -w node1'']
      (Registry_Execute Map.empty
         (\<lambda>m n a. \<lparr>fate = Exits 0, stdout = [], stderr = [], elapsed = 5\<rparr>) 30 [''-N'', ''-w''])
      ''big hostname'')) =
     Some [(Captured 30, ''srun'', [''-N'', ''2'', ''-w'', ''node1'', ''hostname''])]"
  by (simp add: shell_eval exec_eval)

text \<open>
  Claim C3, amended. For every input line, if the command parsed from the line (before any
  alias is applied) violates a validation rule of \<^verbatim>\<open>ValidateCommand\<close>, then nothing
  is dispatched for that line, so no handler and no external program runs; the line is
  recorded in the history as failed. The command that replaces an alias is not validated.
\<close>

theorem invalid_command_not_dispatched:
  "ParseCommand line = Inr cmd \<and> ValidateCommand cmd = Some e \<longrightarrow>
     executeCommand aliases execute line =
       \<lparr>dispatched = [], dispatch_outcome = None, messages = [InvalidCommand e],
        recorded = (line, False)\<rparr>"
  by (simp add: executeCommand_def)

theorem invalid_command_not_dispatched_witness:
  "ParseCommand ''run -N 2 -w node1 hostname'' =
     Inr \<lparr>Name = ''run'', Args = [''hostname''],
          Options = [''-N'' \<mapsto> ''2'', ''-w'' \<mapsto> ''node1'']\<rparr> \<and>
   ValidateCommand \<lparr>Name = ''run'', Args = [''hostname''],
       Options = [''-N'' \<mapsto> ''2'', ''-w'' \<mapsto> ''node1'']\<rparr> = Some ConflictingOptions \<and>
   executeCommand Map.empty
      (Registry_Execute Map.empty
         (\<lambda>m n a. \<lparr>fate = Exits 0, stdout = [], stderr = [], elapsed = 5\<rparr>) 30 [''-N'', ''-w''])
      ''run -N 2 -w node1 hostname'' =
     \<lparr>dispatched = [], dispatch_outcome = None, messages = [InvalidCommand ConflictingOptions],
      recorded = (''run -N 2 -w node1 hostname'', False)\<rparr>"
  using invalid_command_not_dispatched
    [of "''run -N 2 -w node1 hostname''"
        "\<lparr>Name = ''run'', Args = [''hostname''],
          Options = [''-N'' \<mapsto> ''2'', ''-w'' \<mapsto> ''node1'']\<rparr>"
        ConflictingOptions Map.empty
        "Registry_Execute Map.empty
         (\<lambda>m n a. \<lparr>fate = Exits 0, stdout = [], stderr = [], elapsed = 5\<rparr>) 30 [''-N'', ''-w'']"]
  by (simp add: parse_eval validate_eval)

text \<open>
  Claim C8. The alias step of \<^verbatim>\<open>executeCommand\<close> is reached by every parsed
  command that passes validation. When the name of such a command is a key of the alias
  table, the command dispatched is exactly the one obtained by parsing the alias expansion, a
  space, and the positional arguments of the original command joined by spaces (its options
  are not used); when that text does not parse, nothing is dispatched, as when the original
  command is rejected by validation. The table is not consulted again: with the aliases
  \<^verbatim>\<open>a = "b"\<close> and \<^verbatim>\<open>b = "c"\<close> the line \<^verbatim>\<open>a\<close> dispatches the name
  \<^verbatim>\<open>b\<close>. With the table \<^verbatim>\<open>q = "queue"\<close> the line \<^verbatim>\<open>q alice\<close>
  dispatches the command that \<^verbatim>\<open>queue alice\<close> parses to.
\<close>

theorem alias_resolution:
  "(ParseCommand line = Inr cmd \<and> aliases (Name cmd) = Some alias \<longrightarrow>
      dispatched (executeCommand aliases execute line) =
        (if ValidateCommand cmd = None then
           (case ParseCommand (alias @ '' '' @ Join (Args cmd) '' '') of
              Inr cmd' \<Rightarrow> [cmd'] | Inl e \<Rightarrow> [])
         else [])) \<and>
   map Inr (dispatched (executeCommand [''q'' \<mapsto> ''queue''] execute ''q alice'')) =
     [ParseCommand ''queue alice''] \<and>
   dispatched (executeCommand [''a'' \<mapsto> ''b'', ''b'' \<mapsto> ''c''] execute ''a'') =
     [\<lparr>Name = ''b'', Args = [], Options = Map.empty\<rparr>]"
proof -
  have "dispatched (executeCommand aliases execute line) =
        (if ValidateCommand cmd = None then
           (case ParseCommand (alias @ '' '' @ Join (Args cmd) '' '') of
              Inr cmd' \<Rightarrow> [cmd'] | Inl e \<Rightarrow> [])
         else [])"
    if "ParseCommand line = Inr cmd" "aliases (Name cmd) = Some alias"
    using that by (auto simp: executeCommand_def Let_def split: sum.splits)
  moreover have "map Inr (dispatched (executeCommand [''q'' \<mapsto> ''queue''] execute ''q alice'')) =
     [ParseCommand ''queue alice'']"
    by (simp add: shell_eval)
  moreover have "dispatched (executeCommand [''a'' \<mapsto> ''b'', ''b'' \<mapsto> ''c''] execute ''a'') =
     [\<lparr>Name = ''b'', Args = [], Options = Map.empty\<rparr>]"
    by (simp add: shell_eval)
  ultimately show ?thesis by blast
qed

theorem alias_resolution_witness:
  "ParseCommand ''st -v 42 17'' =
     Inr \<lparr>Name = ''st'', Args = [''17''], Options = [''-v'' \<mapsto> ''42'']\<rparr> \<and>
   [''st'' \<mapsto> ''status''] (Name \<lparr>Name = ''st'', Args = [''17''], Options = [''-v'' \<mapsto> ''42'']\<rparr>) =
     Some ''status'' \<and>
   dispatched (executeCommand [''st'' \<mapsto> ''status'']
      (\<lambda>c. \<lparr>ran = [], printed = [], error = None\<rparr>) ''st -v 42 17'') =
     [\<lparr>Name = ''status'', Args = [''17''], Options = Map.empty\<rparr>]"
  using alias_resolution
    [of "''st -v 42 17''" "\<lparr>Name = ''st'', Args = [''17''], Options = [''-v'' \<mapsto> ''42'']\<rparr>"
        "[''st'' \<mapsto> ''status'']" "''status''" "\<lambda>c. \<lparr>ran = [], printed = [], error = None\<rparr>"]
  by (simp add: parse_eval validate_eval)

section \<open>Job options: properties\<close>
















section \<open>History: properties\<close>

lemmas hist_eval =
  Load_def Add_def Clear_def NewHistory_def keep_last_def last_n_def newline_def creturn_def dropCR_def
  MaxScanTokenSize_def byte_length_def rune_bytes_def parseHistoryLine_def SplitN_def Sscanf_d_def Sscanf_t_def skip_space_def
  isSpace_def isDigit_def ParseInt64_def digits_val_def TrimSpace_def time_Unix_def Let_def
  well_kept_def decoded_def

subsection \<open>Invariants of the log\<close>

lemma length_last_n: "length (last_n n es) \<le> n"
  by (simp add: last_n_def)

lemma last_n_all: "length es \<le> n \<Longrightarrow> last_n n es = es"
  by (simp add: last_n_def)

lemma last_n_zero: "last_n 0 es = []"
  by (simp add: last_n_def)

lemma last_n_snoc: "0 < n \<Longrightarrow> last_n n (es @ [e]) \<noteq> [] \<and> last (last_n n (es @ [e])) = e"
  by (simp add: last_n_def)

lemma well_kept_drop: "well_kept es \<Longrightarrow> well_kept (drop n es)"
proof -
  assume wk: "well_kept es"
  have "distinct_adj (map Command (take n es) @ map Command (drop n es))"
    using wk by (simp add: well_kept_def flip: map_append)
  then have "distinct_adj (map Command (drop n es))"
    by (simp add: distinct_adj_append_iff)
  moreover have "list_all (\<lambda>e. Command e \<noteq> []) (drop n es)"
    using wk by (auto simp: well_kept_def list_all_iff dest: in_set_dropD)
  ultimately show ?thesis by (simp add: well_kept_def)
qed

lemma well_kept_last_n: "well_kept es \<Longrightarrow> well_kept (last_n n es)"
  by (simp add: last_n_def well_kept_drop)

lemma well_kept_snoc:
  assumes "well_kept es" "Command e \<noteq> []" "es = [] \<or> Command (last es) \<noteq> Command e"
  shows "well_kept (es @ [e])"
  using assms by (auto simp: well_kept_def distinct_adj_append_iff last_map)

lemma Add_cases:
  assumes "0 \<le> maxSize h"
  obtains
    (blank) "TrimSpace c = []" "Add c s d t h = Some h"
  | (repeated) "TrimSpace c \<noteq> []" "entries h \<noteq> []" "Command (last (entries h)) = TrimSpace c"
      "Add c s d t h = Some h"
  | (appended) "TrimSpace c \<noteq> []" "entries h = [] \<or> Command (last (entries h)) \<noteq> TrimSpace c"
      "Add c s d t h =
         Some (h\<lparr>entries := last_n (nat (maxSize h))
           (entries h @ [\<lparr>Command = TrimSpace c, Timestamp = t, Success = s, Duration = d\<rparr>])\<rparr>)"
proof (cases "TrimSpace c = []")
  case True
  then have "Add c s d t h = Some h" by (simp add: Add_def Let_def)
  with True show ?thesis by (rule blank)
next
  case ne: False
  show ?thesis
  proof (cases "entries h \<noteq> [] \<and> Command (last (entries h)) = TrimSpace c")
    case True
    then have "Add c s d t h = Some h" using ne by (simp add: Add_def Let_def)
    with ne True show ?thesis by (intro repeated) simp_all
  next
    case False
    have "Add c s d t h =
         Some (h\<lparr>entries := last_n (nat (maxSize h))
           (entries h @ [\<lparr>Command = TrimSpace c, Timestamp = t, Success = s, Duration = d\<rparr>])\<rparr>)"
    proof (cases "int (length (entries h)) + 1 > maxSize h")
      case True
      with False ne assms show ?thesis
        by (auto simp: Add_def Let_def keep_last_def)
    next
      case le: False
      then have "last_n (nat (maxSize h))
           (entries h @ [\<lparr>Command = TrimSpace c, Timestamp = t, Success = s, Duration = d\<rparr>]) =
           entries h @ [\<lparr>Command = TrimSpace c, Timestamp = t, Success = s, Duration = d\<rparr>]"
        by (intro last_n_all) simp
      with False ne le show ?thesis
        by (auto simp: Add_def Let_def)
    qed
    with ne False show ?thesis by (intro appended) auto
  qed
qed

lemma Add_invariants:
  assumes m: "0 \<le> maxSize h" and sz: "int (length (entries h)) \<le> maxSize h"
  shows "\<exists>h'. Add c s d t h = Some h' \<and> maxSize h' = maxSize h \<and>
           int (length (entries h')) \<le> maxSize h' \<and>
           (well_kept (entries h) \<longrightarrow> well_kept (entries h'))"
  using m
proof (cases rule: Add_cases [where c = c and s = s and d = d and t = t])
  case blank
  with sz show ?thesis by simp
next
  case repeated
  with sz show ?thesis by simp
next
  case appended
  define es where "es = last_n (nat (maxSize h))
     (entries h @ [\<lparr>Command = TrimSpace c, Timestamp = t, Success = s, Duration = d\<rparr>])"
  have "well_kept (entries h @ [\<lparr>Command = TrimSpace c, Timestamp = t, Success = s, Duration = d\<rparr>])"
    if "well_kept (entries h)"
    using that appended by (intro well_kept_snoc) auto
  then have wk: "well_kept es" if "well_kept (entries h)"
    using that unfolding es_def by (intro well_kept_last_n) simp
  have "length es \<le> nat (maxSize h)"
    unfolding es_def by (rule length_last_n)
  then have len: "int (length es) \<le> maxSize h" using m by linarith
  have "Add c s d t h = Some (h\<lparr>entries := es\<rparr>)"
    using appended(3) by (simp add: es_def)
  with wk len show ?thesis by simp
qed

lemma Load_cases:
  assumes "0 \<le> maxSize h"
  obtains (kept) err where "Load f h = Some (err, h)"
  | (loaded) "Load f h = Some (None, h\<lparr>entries := last_n (nat (maxSize h)) (decoded f)\<rparr>)"
proof (cases f)
  case Missing
  then have "Load f h = Some (None, h)" by (simp add: Load_def)
  then show ?thesis by (rule kept)
next
  case Unreadable
  then have "Load f h = Some (Some OpenFailed, h)" by (simp add: Load_def)
  then show ?thesis by (rule kept)
next
  case (Content data)
  show ?thesis
  proof (cases "list_ex (\<lambda>raw. byte_length raw \<ge> MaxScanTokenSize) (lines_from [] data)")
    case True
    with Content have "Load f h = Some (Some ReadFailed, h)" by (simp add: Load_def)
    then show ?thesis by (rule kept)
  next
    case ok: False
    have "Load f h = Some (None, h\<lparr>entries := last_n (nat (maxSize h)) (decoded f)\<rparr>)"
    proof (cases "int (length (decoded f)) > maxSize h")
      case True
      with ok Content assms show ?thesis
        by (simp add: Load_def Let_def decoded_def keep_last_def)
    next
      case False
      then have "last_n (nat (maxSize h)) (decoded f) = decoded f"
        by (intro last_n_all) linarith
      with False ok Content show ?thesis
        by (simp add: Load_def Let_def decoded_def)
    qed
    then show ?thesis by (rule loaded)
  qed
qed

lemma Load_invariants:
  assumes m: "0 \<le> maxSize h" and sz: "int (length (entries h)) \<le> maxSize h"
  shows "\<exists>err h'. Load f h = Some (err, h') \<and> maxSize h' = maxSize h \<and>
           int (length (entries h')) \<le> maxSize h' \<and>
           (well_kept (entries h) \<and> well_kept (decoded f) \<longrightarrow> well_kept (entries h'))"
  using m
proof (cases rule: Load_cases [where f = f])
  case (kept err)
  with sz show ?thesis by simp
next
  case loaded
  have "length (last_n (nat (maxSize h)) (decoded f)) \<le> nat (maxSize h)"
    by (rule length_last_n)
  then have "int (length (last_n (nat (maxSize h)) (decoded f))) \<le> maxSize h"
    using m by linarith
  with loaded show ?thesis by (simp add: well_kept_last_n)
qed

lemma apply_op_invariants:
  assumes m: "0 \<le> maxSize h" and sz: "int (length (entries h)) \<le> maxSize h"
  shows "\<exists>h'. apply_op x h = Some h' \<and> maxSize h' = maxSize h \<and>
           int (length (entries h')) \<le> maxSize h' \<and>
           (well_kept (entries h) \<and> well_kept_op x \<longrightarrow> well_kept (entries h'))"
proof (cases x)
  case (OpAdd c s d t)
  then show ?thesis using Add_invariants [OF m sz, of c s d t] by auto
next
  case (OpLoad f)
  then show ?thesis using Load_invariants [OF m sz, of f] by auto
next
  case OpClear
  then show ?thesis using m by (simp add: Clear_def well_kept_def)
qed

lemma run_ops_invariants:
  "0 \<le> maxSize h \<Longrightarrow> int (length (entries h)) \<le> maxSize h \<Longrightarrow>
   \<exists>h'. run_ops h ops = Some h' \<and> maxSize h' = maxSize h \<and>
        int (length (entries h')) \<le> maxSize h' \<and>
        (well_kept (entries h) \<and> list_all well_kept_op ops \<longrightarrow> well_kept (entries h'))"
proof (induction ops arbitrary: h)
  case Nil
  then show ?case by simp
next
  case (Cons x ops)
  from apply_op_invariants [OF Cons.prems, of x] obtain h1 where
    h1: "apply_op x h = Some h1" "maxSize h1 = maxSize h"
      "int (length (entries h1)) \<le> maxSize h1"
      "well_kept (entries h) \<and> well_kept_op x \<longrightarrow> well_kept (entries h1)"
    by blast
  from h1(2) Cons.prems(1) have m1: "0 \<le> maxSize h1" by simp
  from Cons.IH [OF m1 h1(3)] obtain h' where
    h': "run_ops h1 ops = Some h'" "maxSize h' = maxSize h1"
      "int (length (entries h')) \<le> maxSize h'"
      "well_kept (entries h1) \<and> list_all well_kept_op ops \<longrightarrow> well_kept (entries h')"
    by blast
  have "run_ops h (x # ops) = Some h'" using h1(1) h'(1) by simp
  moreover have "maxSize h' = maxSize h" using h1(2) h'(2) by simp
  moreover have "well_kept (entries h')"
    if "well_kept (entries h) \<and> list_all well_kept_op (x # ops)"
    using that h1(4) h'(4) by simp
  ultimately show ?case using h'(3) by blast
qed

lemma Add_twice:
  assumes m: "0 \<le> maxSize h" and eq: "TrimSpace c' = TrimSpace c"
    and a: "Add c s d t h = Some h1"
  shows "Add c' s' d' t' h1 = Some h1"
  using m
proof (cases rule: Add_cases [where c = c and s = s and d = d and t = t])
  case blank
  with eq show ?thesis by (simp add: Add_def Let_def)
next
  case repeated
  with a have "h1 = h" by simp
  with repeated eq show ?thesis by (simp add: Add_def Let_def)
next
  case appended
  define e where "e = \<lparr>Command = TrimSpace c, Timestamp = t, Success = s, Duration = d\<rparr>"
  from appended(3) a have h1: "h1 = h\<lparr>entries := last_n (nat (maxSize h)) (entries h @ [e])\<rparr>"
    by (simp add: e_def)
  show ?thesis
  proof (cases "maxSize h = 0")
    case True
    then have "entries h1 = []" using h1 by (simp add: last_n_zero)
    moreover have "maxSize h1 = 0" using h1 True by simp
    ultimately show ?thesis
      using appended(1) eq by (simp add: Add_def Let_def keep_last_def last_n_zero)
  next
    case False
    with m have "0 < nat (maxSize h)" by simp
    from last_n_snoc [OF this, of "entries h" e]
    have "entries h1 \<noteq> []" "Command (last (entries h1)) = TrimSpace c"
      using h1 by (simp_all add: e_def)
    with eq show ?thesis by (simp add: Add_def Let_def)
  qed
qed

text \<open>
  Claim C4, as the specification states it, fails on the code: \<^verbatim>\<open>Load\<close> stores the
  entries it decodes from the file as they are, without the two checks \<^verbatim>\<open>Add\<close>
  makes. From a file of three well-formed lines, two with the command \<^verbatim>\<open>ls\<close> and
  one with nothing after the third \<^verbatim>\<open>|\<close>, a fresh history of size 10 comes to hold
  two equal neighbours and an empty command.
\<close>

theorem Load_unchecked_counterexample:
  "run_ops (NewHistory 10)
     [OpLoad (Content (''1|true|5|ls'' @ [newline] @ ''2|true|7|ls'' @ [newline] @
                       ''3|false|9|'' @ [newline]))] =
     Some \<lparr>entries =
       [\<lparr>Command = ''ls'', Timestamp = \<lparr>unix_sec = 1, nsec = 0\<rparr>, Success = True, Duration = 5\<rparr>,
        \<lparr>Command = ''ls'', Timestamp = \<lparr>unix_sec = 2, nsec = 0\<rparr>, Success = True, Duration = 7\<rparr>,
        \<lparr>Command = [], Timestamp = \<lparr>unix_sec = 3, nsec = 0\<rparr>, Success = False, Duration = 9\<rparr>],
       maxSize = 10\<rparr> \<and>
   \<not> distinct_adj [''ls'', ''ls'', []] \<and>
   \<not> list_all (\<lambda>c. c \<noteq> []) [''ls'', ''ls'', []]"
  by (simp add: hist_eval)

text \<open>
  Claim C4, amended. With \<open>maxSize \<ge> 0\<close>, every sequence of \<^verbatim>\<open>Add\<close>,
  \<^verbatim>\<open>Load\<close> and \<^verbatim>\<open>Clear\<close> operations on a new history runs without a panic
  and leaves a log of at most \<open>maxSize\<close> entries, whatever the files hold. When moreover
  every file loaded decodes to entries with no empty command and no two equal neighbours (in
  particular when nothing is loaded), no stored command is empty and no two consecutive
  stored commands are equal. An \<^verbatim>\<open>Add\<close> that follows an \<^verbatim>\<open>Add\<close> of the same
  trimmed text leaves the log as it is; on a new history with \<open>maxSize \<ge> 1\<close> the two
  calls produce exactly one entry. An \<^verbatim>\<open>Add\<close> of a blank command leaves the log
  unchanged, without error.
\<close>

theorem history_invariants:
  "(0 \<le> m \<longrightarrow>
      (\<exists>h. run_ops (NewHistory m) ops = Some h \<and> maxSize h = m \<and>
           int (length (entries h)) \<le> m \<and>
           (list_all well_kept_op ops \<longrightarrow>
              list_all (\<lambda>e. Command e \<noteq> []) (entries h) \<and>
              distinct_adj (map Command (entries h))))) \<and>
   (0 \<le> maxSize h0 \<and> TrimSpace c' = TrimSpace c \<and> Add c s d t h0 = Some h1 \<longrightarrow>
      Add c' s' d' t' h1 = Some h1) \<and>
   (1 \<le> m \<and> TrimSpace c \<noteq> [] \<longrightarrow>
      run_ops (NewHistory m) [OpAdd c s d t, OpAdd c s' d' t'] =
        Some \<lparr>entries = [\<lparr>Command = TrimSpace c, Timestamp = t, Success = s, Duration = d\<rparr>],
              maxSize = m\<rparr>) \<and>
   (TrimSpace c = [] \<longrightarrow> Add c s d t h0 = Some h0)"
proof -
  have "\<exists>h. run_ops (NewHistory m) ops = Some h \<and> maxSize h = m \<and>
           int (length (entries h)) \<le> m \<and>
           (list_all well_kept_op ops \<longrightarrow>
              list_all (\<lambda>e. Command e \<noteq> []) (entries h) \<and>
              distinct_adj (map Command (entries h)))"
    if "0 \<le> m"
    using run_ops_invariants [of "NewHistory m" ops] that
    by (auto simp: NewHistory_def well_kept_def)
  moreover have "Add c' s' d' t' h1 = Some h1"
    if "0 \<le> maxSize h0" "TrimSpace c' = TrimSpace c" "Add c s d t h0 = Some h1"
    using that by (rule Add_twice)
  moreover have "run_ops (NewHistory m) [OpAdd c s d t, OpAdd c s' d' t'] =
        Some \<lparr>entries = [\<lparr>Command = TrimSpace c, Timestamp = t, Success = s, Duration = d\<rparr>],
              maxSize = m\<rparr>"
    if "1 \<le> m" "TrimSpace c \<noteq> []"
    using that by (simp add: NewHistory_def Add_def Let_def)
  moreover have "Add c s d t h0 = Some h0" if "TrimSpace c = []"
    using that by (simp add: Add_def Let_def)
  ultimately show ?thesis by blast
qed

theorem history_invariants_witness:
  "(0::int) \<le> 2 \<and>
   list_all well_kept_op
     [OpAdd ''ls'' True 5 \<lparr>unix_sec = 10, nsec = 1\<rparr>,
      OpLoad (Content (''1|true|5|ls'' @ [newline] @ ''2|false|7|pwd'' @ [newline])),
      OpAdd '' pwd '' True 6 \<lparr>unix_sec = 11, nsec = 2\<rparr>,
      OpAdd ''  '' True 6 \<lparr>unix_sec = 12, nsec = 3\<rparr>,
      OpAdd ''queue alice'' False 8 \<lparr>unix_sec = 13, nsec = 4\<rparr>] \<and>
   run_ops (NewHistory 2)
     [OpAdd ''ls'' True 5 \<lparr>unix_sec = 10, nsec = 1\<rparr>,
      OpLoad (Content (''1|true|5|ls'' @ [newline] @ ''2|false|7|pwd'' @ [newline])),
      OpAdd '' pwd '' True 6 \<lparr>unix_sec = 11, nsec = 2\<rparr>,
      OpAdd ''  '' True 6 \<lparr>unix_sec = 12, nsec = 3\<rparr>,
      OpAdd ''queue alice'' False 8 \<lparr>unix_sec = 13, nsec = 4\<rparr>] =
     Some \<lparr>entries =
       [\<lparr>Command = ''pwd'', Timestamp = \<lparr>unix_sec = 2, nsec = 0\<rparr>, Success = False, Duration = 7\<rparr>,
        \<lparr>Command = ''queue alice'', Timestamp = \<lparr>unix_sec = 13, nsec = 4\<rparr>, Success = False,
          Duration = 8\<rparr>],
       maxSize = 2\<rparr>"
  using history_invariants
    [of 2 "[OpAdd ''ls'' True 5 \<lparr>unix_sec = 10, nsec = 1\<rparr>,
      OpLoad (Content (''1|true|5|ls'' @ [newline] @ ''2|false|7|pwd'' @ [newline])),
      OpAdd '' pwd '' True 6 \<lparr>unix_sec = 11, nsec = 2\<rparr>,
      OpAdd ''  '' True 6 \<lparr>unix_sec = 12, nsec = 3\<rparr>,
      OpAdd ''queue alice'' False 8 \<lparr>unix_sec = 13, nsec = 4\<rparr>]"]
  by (simp add: hist_eval)

subsection \<open>Writing and reading back\<close>

lemma isDigit_digit_char: "k < 10 \<Longrightarrow> isDigit (digit_char k)"
  by (simp add: isDigit_def digit_char_def)

lemma digit_char_val: "k < 10 \<Longrightarrow> (of_char (digit_char k) :: nat) - 48 = k"
  by (simp add: digit_char_def)

lemma show_nat_digits: "show_nat n \<noteq> [] \<and> list_all isDigit (show_nat n)"
proof (induction n rule: show_nat.induct)
  case (1 n)
  show ?case
  proof (cases "n < 10")
    case True
    then show ?thesis by (subst (1 2) show_nat.simps) (simp add: isDigit_digit_char)
  next
    case False
    with 1 show ?thesis
      by (subst (1 2) show_nat.simps) (simp add: isDigit_digit_char)
  qed
qed

lemma digits_val_snoc: "digits_val (ds @ [c]) = digits_val ds * 10 + (of_char c - 48)"
  by (simp add: digits_val_def)

lemma digits_val_show_nat: "digits_val (show_nat n) = n"
proof (induction n rule: show_nat.induct)
  case (1 n)
  show ?case
  proof (cases "n < 10")
    case True
    then show ?thesis
      by (subst show_nat.simps) (simp add: digits_val_def digit_char_val)
  next
    case False
    with 1 have "digits_val (show_nat (n div 10)) = n div 10" by simp
    with False show ?thesis
      by (subst show_nat.simps) (simp add: digits_val_snoc digit_char_val)
  qed
qed

lemma isDigit_plain:
  assumes "isDigit c"
  shows "\<not> isSpace c" "c \<noteq> CHR ''+''" "c \<noteq> CHR ''-''" "c \<noteq> CHR ''|''" "c \<noteq> newline"
  using assms by (auto simp: isDigit_def isSpace_def newline_def)

lemma takeWhile_digits:
  "list_all isDigit ds \<Longrightarrow> takeWhile (\<lambda>d. isDigit d \<or> d = CHR ''_'') ds = ds"
  by (induction ds) auto

lemma Sscanf_d_digits:
  assumes "ds \<noteq> []" "list_all isDigit ds"
  shows "Sscanf_d ds = ParseInt64 False ds"
proof -
  from assms obtain c r where ds: "ds = c # r" "isDigit c" "list_all isDigit r"
    by (cases ds) auto
  have sk: "skip_space (c # r) = Some (c # r)"
    using isDigit_plain(1,5) [OF ds(2)] by (simp add: skip_space_def)
  show ?thesis
    using isDigit_plain(2,3) [OF ds(2)] ds
    by (simp add: Sscanf_d_def Let_def sk takeWhile_digits)
qed

lemma Sscanf_d_minus:
  assumes "ds \<noteq> []" "list_all isDigit ds"
  shows "Sscanf_d (CHR ''-'' # ds) = ParseInt64 True ds"
proof -
  have "\<not> isSpace (CHR ''-'')" "CHR ''-'' \<noteq> newline"
    by (simp_all add: isSpace_def newline_def)
  then have sk: "skip_space (CHR ''-'' # ds) = Some (CHR ''-'' # ds)"
    by (simp add: skip_space_def)
  show ?thesis
    using assms by (simp add: Sscanf_d_def Let_def sk takeWhile_digits)
qed

lemma Sscanf_d_show_int:
  assumes "- (2 ^ 63) \<le> i" "i < 2 ^ 63"
  shows "Sscanf_d (show_int i) = Some (word_of_int i)"
proof (cases "i < 0")
  case True
  then have "show_int i = CHR ''-'' # show_nat (nat (- i))" by (simp add: show_int_def)
  then have "Sscanf_d (show_int i) = ParseInt64 True (show_nat (nat (- i)))"
    using show_nat_digits [of "nat (- i)"] by (simp add: Sscanf_d_minus)
  also have "\<dots> = Some (word_of_int i)"
    using True assms show_nat_digits [of "nat (- i)"]
    by (simp add: ParseInt64_def digits_val_show_nat)
  finally show ?thesis .
next
  case False
  then have "show_int i = show_nat (nat i)" by (simp add: show_int_def)
  then have "Sscanf_d (show_int i) = ParseInt64 False (show_nat (nat i))"
    using show_nat_digits [of "nat i"] by (simp add: Sscanf_d_digits)
  also have "\<dots> = Some (word_of_int i)"
    using False assms show_nat_digits [of "nat i"]
    by (simp add: ParseInt64_def digits_val_show_nat)
  finally show ?thesis .
qed

lemma Sscanf_d_sint: "Sscanf_d (show_int (sint (w :: 64 word))) = Some w"
proof -
  have "- (2 ^ 63) \<le> sint w" "sint w < 2 ^ 63"
    using sint_ge [of w] sint_lt [of w] by simp_all
  then show ?thesis by (simp add: Sscanf_d_show_int)
qed

lemma Sscanf_t_show_bool: "Sscanf_t (show_bool b) = Some b"
  by (cases b) (simp_all add: Sscanf_t_def show_bool_def skip_space_def isSpace_def newline_def)

lemma show_nat_set: "c \<in> set (show_nat n) \<Longrightarrow> isDigit c"
  using show_nat_digits [of n] by (simp add: list_all_iff)

lemma show_nat_chars:
  "show_nat n \<noteq> [] \<and> \<not> isSpace (hd (show_nat n)) \<and>
   CHR ''|'' \<notin> set (show_nat n) \<and> newline \<notin> set (show_nat n)"
proof -
  have ne: "show_nat n \<noteq> []" using show_nat_digits [of n] by simp
  then have "hd (show_nat n) \<in> set (show_nat n)" by simp
  then have "\<not> isSpace (hd (show_nat n))"
    using show_nat_set isDigit_plain(1) by blast
  moreover have "CHR ''|'' \<notin> set (show_nat n)"
    using show_nat_set [of "CHR ''|''" n] by (auto simp: isDigit_def)
  moreover have "newline \<notin> set (show_nat n)"
    using show_nat_set [of newline n] by (auto simp: isDigit_def newline_def)
  ultimately show ?thesis using ne by simp
qed

lemma show_int_chars:
  "show_int i \<noteq> [] \<and> \<not> isSpace (hd (show_int i)) \<and>
   CHR ''|'' \<notin> set (show_int i) \<and> newline \<notin> set (show_int i)"
  using show_nat_chars [of "nat i"] show_nat_chars [of "nat (- i)"]
  by (simp add: show_int_def isSpace_def newline_def)

lemma show_bool_chars: "CHR ''|'' \<notin> set (show_bool b) \<and> newline \<notin> set (show_bool b)"
  by (cases b) (simp_all add: show_bool_def newline_def)

lemma splitn_from_field:
  "sep \<notin> set xs \<Longrightarrow> 1 < n \<Longrightarrow>
   splitn_from sep n cur (xs @ sep # rest) = (cur @ xs) # splitn_from sep (n - 1) [] rest"
  by (induction xs arbitrary: cur) auto

lemma splitn_from_rest: "splitn_from sep (Suc 0) cur s = [cur @ s]"
  by (cases s) simp_all

lemma SplitN_four:
  assumes "sep \<notin> set a" "sep \<notin> set b" "sep \<notin> set c"
  shows "SplitN (a @ sep # b @ sep # c @ sep # d) sep 4 = [a, b, c, d]"
proof -
  have "splitn_from sep 4 [] (a @ sep # b @ sep # c @ sep # d) =
        a # splitn_from sep 3 [] (b @ sep # c @ sep # d)"
    using assms(1) by (simp add: splitn_from_field)
  also have "splitn_from sep 3 [] (b @ sep # c @ sep # d) = b # splitn_from sep 2 [] (c @ sep # d)"
    using assms(2) by (simp add: splitn_from_field)
  also have "splitn_from sep 2 [] (c @ sep # d) = c # splitn_from sep (Suc 0) [] d"
    using assms(3) by (simp add: splitn_from_field)
  finally show ?thesis by (simp add: SplitN_def splitn_from_rest)
qed

lemma parse_entry_line: "parseHistoryLine (entry_line e) = Some (to_second e)"
proof -
  have "SplitN (entry_line e) (CHR ''|'') 4 =
      [show_int (sint (unix_sec (Timestamp e))), show_bool (Success e),
       show_int (sint (Duration e)), Command e]"
    using SplitN_four [of "CHR ''|''" "show_int (sint (unix_sec (Timestamp e)))"
        "show_bool (Success e)" "show_int (sint (Duration e))" "Command e"]
      show_int_chars show_bool_chars
    by (simp add: entry_line_def)
  then show ?thesis
    by (simp add: parseHistoryLine_def Sscanf_d_sint Sscanf_t_show_bool to_second_def)
qed

lemma TrimSpace_id:
  assumes "s \<noteq> []" "\<not> isSpace (hd s)" "\<not> isSpace (last s)"
  shows "TrimSpace s = s"
proof -
  from assms have "dropWhile isSpace s = s" by (cases s) simp_all
  moreover from assms have "dropWhile isSpace (rev s) = rev s"
    by (cases "rev s") (simp_all add: last_rev [symmetric] del: last_rev)
  ultimately show ?thesis by (simp add: TrimSpace_def)
qed

lemma entry_line_shape:
  assumes "storable (Command e)"
  shows "entry_line e \<noteq> []" "\<not> isSpace (hd (entry_line e))" "\<not> isSpace (last (entry_line e))"
    "newline \<notin> set (entry_line e)"
proof -
  show "entry_line e \<noteq> []" "\<not> isSpace (hd (entry_line e))"
    using show_int_chars [of "sint (unix_sec (Timestamp e))"]
    by (simp_all add: entry_line_def)
  show "\<not> isSpace (last (entry_line e))"
    using assms by (auto simp: entry_line_def storable_def isSpace_def)
  show "newline \<notin> set (entry_line e)"
    using assms show_int_chars show_bool_chars
    by (auto simp: entry_line_def storable_def newline_def)
qed

lemma load_loop_lines:
  "list_all (\<lambda>e. storable (Command e)) es \<Longrightarrow>
   load_loop acc (map dropCR (map entry_line es)) = acc @ map to_second es"
proof (induction es arbitrary: acc)
  case Nil
  then show ?case by simp
next
  case (Cons e es)
  then have st: "storable (Command e)" by simp
  have "last (entry_line e) \<noteq> creturn"
    using entry_line_shape(3) [OF st] by (auto simp: isSpace_def creturn_def)
  then have cr: "dropCR (entry_line e) = entry_line e" by (simp add: dropCR_def)
  have tr: "TrimSpace (entry_line e) = entry_line e"
    using entry_line_shape [OF st] by (intro TrimSpace_id)
  show ?case
    using Cons entry_line_shape(1) [OF st]
    by (simp add: cr tr parse_entry_line)
qed

lemma lines_from_line:
  "newline \<notin> set l \<Longrightarrow> lines_from cur (l @ newline # rest) = (cur @ l) # lines_from [] rest"
  by (induction l arbitrary: cur) auto

lemma lines_from_entries:
  "list_all (\<lambda>e. storable (Command e)) es \<Longrightarrow>
   lines_from [] (concat (map format_entry es)) = map entry_line es"
proof (induction es)
  case Nil
  then show ?case by simp
next
  case (Cons e es)
  then have "newline \<notin> set (entry_line e)"
    using entry_line_shape(4) by simp
  then show ?case using Cons by (simp add: format_entry_def lines_from_line)
qed

lemma Load_Save:
  assumes st: "list_all (\<lambda>e. storable (Command e)) es"
    and fit: "list_all (\<lambda>e. byte_length (entry_line e) < MaxScanTokenSize) es"
    and sz: "int (length es) \<le> m"
  shows "Load (snd (Save True \<lparr>entries = es, maxSize = m0\<rparr> f)) (NewHistory m) =
           Some (None, \<lparr>entries = map to_second es, maxSize = m\<rparr>)"
proof -
  have lines: "lines_from [] (concat (map format_entry es)) = map entry_line es"
    using st by (rule lines_from_entries)
  have "\<not> list_ex (\<lambda>raw. byte_length raw \<ge> MaxScanTokenSize) (map entry_line es)"
    using fit by (auto simp: list_ex_iff list_all_iff)
  moreover have "load_loop [] (map dropCR (map entry_line es)) = map to_second es"
    using load_loop_lines [OF st, of "[]"] by simp
  ultimately show ?thesis
    using sz by (simp add: Load_def Save_def lines NewHistory_def Let_def)
qed

lemma Load_too_long:
  assumes "storable (Command e)" "MaxScanTokenSize \<le> byte_length (entry_line e)"
  shows "Load (snd (Save True \<lparr>entries = [e], maxSize = m0\<rparr> f)) h = Some (Some ReadFailed, h)"
proof -
  have "lines_from [] (concat (map format_entry [e])) = map entry_line [e]"
    using assms(1) by (intro lines_from_entries) simp
  then show ?thesis using assms(2) by (simp add: Load_def Save_def)
qed

lemma length_le_byte_length: "length s \<le> byte_length s"
  by (induction s) (simp_all add: byte_length_def rune_bytes_def)

lemma byte_length_append: "byte_length (a @ b) = byte_length a + byte_length b"
  by (simp add: byte_length_def)

lemma byte_length_replicate: "byte_length (replicate n c) = n * rune_bytes c"
  by (induction n) (simp_all add: byte_length_def)

lemma byte_length_entry_line: "byte_length (Command e) \<le> byte_length (entry_line e)"
  by (simp add: entry_line_def byte_length_def)

text \<open>
  The limit is one of bytes, not of characters: a command of 40000 letters U+00E9, two bytes
  each, makes a line of more than 64 KiB, which is not read back.
\<close>

lemma Load_two_byte_runes:
  "Load (snd (Save True
       \<lparr>entries = [\<lparr>Command = replicate 40000 (CHR 0xE9),
                    Timestamp = \<lparr>unix_sec = 100, nsec = 0\<rparr>, Success = True, Duration = 5\<rparr>],
        maxSize = 10\<rparr> Missing))
     (NewHistory 10) =
     Some (Some ReadFailed, NewHistory 10)"
proof (rule Load_too_long)
  show "storable (Command \<lparr>Command = replicate 40000 (CHR 0xE9),
      Timestamp = \<lparr>unix_sec = 100, nsec = 0\<rparr>, Success = True, Duration = 5\<rparr>)"
    by (simp add: storable_def isSpace_def newline_def)
  have "byte_length (replicate 40000 (CHR 0xE9)) = 80000"
    by (simp add: byte_length_replicate rune_bytes_def)
  then show "MaxScanTokenSize \<le> byte_length (entry_line \<lparr>Command = replicate 40000 (CHR 0xE9),
      Timestamp = \<lparr>unix_sec = 100, nsec = 0\<rparr>, Success = True, Duration = 5\<rparr>)"
    using byte_length_entry_line [of "\<lparr>Command = replicate 40000 (CHR 0xE9),
      Timestamp = \<lparr>unix_sec = 100, nsec = 0\<rparr>, Success = True, Duration = 5\<rparr>"]
    by (simp add: MaxScanTokenSize_def)
qed

lemma length_entry_line: "9 + length (Command e) \<le> length (entry_line e)"
proof -
  have "1 \<le> length (show_int i)" for i
    using show_int_chars [of i] by (cases "show_int i") simp_all
  from this [of "sint (unix_sec (Timestamp e))"] this [of "sint (Duration e)"]
  show ?thesis by (cases "Success e") (simp_all add: entry_line_def show_bool_def)
qed

lemma digit_char_simps:
  "digit_char 0 = CHR ''0''" "digit_char (Suc 0) = CHR ''1''" "digit_char 1 = CHR ''1''"
  "digit_char 2 = CHR ''2''" "digit_char 3 = CHR ''3''" "digit_char 4 = CHR ''4''"
  "digit_char 5 = CHR ''5''" "digit_char 6 = CHR ''6''" "digit_char 7 = CHR ''7''"
  "digit_char 8 = CHR ''8''" "digit_char 9 = CHR ''9''"
  by code_simp+

lemmas save_eval =
  Save_def format_entry_def entry_line_def show_int_def show_nat.simps show_bool_def
  digit_char_simps storable_def to_second_def

text \<open>
  Claim C5, as the specification states it, fails on the code in two ways. \<^verbatim>\<open>Load\<close>
  trims every line it reads, so a command that ends in white space comes back without it:
  the log holding \<^verbatim>\<open>"ls "\<close> is read back as \<^verbatim>\<open>"ls"\<close>. And the scanner of
  \<^verbatim>\<open>Load\<close> gives up on a line of 64 KiB or more: a log holding one command of
  65530 letters \<^verbatim>\<open>a\<close>, one byte each and none a newline, is written as a line of
  more than 65536 bytes, and reading it back fails and restores nothing.
\<close>

theorem save_load_counterexample:
  "newline \<notin> set ''ls '' \<and>
   Load (snd (Save True
       \<lparr>entries = [\<lparr>Command = ''ls '', Timestamp = \<lparr>unix_sec = 100, nsec = 0\<rparr>, Success = True,
                    Duration = 5\<rparr>], maxSize = 10\<rparr> Missing))
     (NewHistory 10) =
     Some (None,
       \<lparr>entries = [\<lparr>Command = ''ls'', Timestamp = \<lparr>unix_sec = 100, nsec = 0\<rparr>, Success = True,
                    Duration = 5\<rparr>], maxSize = 10\<rparr>) \<and>
   newline \<notin> set (replicate 65530 (CHR ''a'')) \<and>
   Load (snd (Save True
       \<lparr>entries = [\<lparr>Command = replicate 65530 (CHR ''a''),
                    Timestamp = \<lparr>unix_sec = 100, nsec = 0\<rparr>, Success = True, Duration = 5\<rparr>],
        maxSize = 10\<rparr> Missing))
     (NewHistory 10) =
     Some (Some ReadFailed, NewHistory 10)"
proof -
  have "Load (snd (Save True
       \<lparr>entries = [\<lparr>Command = ''ls '', Timestamp = \<lparr>unix_sec = 100, nsec = 0\<rparr>, Success = True,
                    Duration = 5\<rparr>], maxSize = 10\<rparr> Missing))
     (NewHistory 10) =
     Some (None,
       \<lparr>entries = [\<lparr>Command = ''ls'', Timestamp = \<lparr>unix_sec = 100, nsec = 0\<rparr>, Success = True,
                    Duration = 5\<rparr>], maxSize = 10\<rparr>)"
    by (simp add: hist_eval save_eval)
  moreover have nl: "newline \<notin> set (replicate 65530 (CHR ''a''))"
    by (simp add: newline_def)
  moreover have "Load (snd (Save True
       \<lparr>entries = [\<lparr>Command = replicate 65530 (CHR ''a''),
                    Timestamp = \<lparr>unix_sec = 100, nsec = 0\<rparr>, Success = True, Duration = 5\<rparr>],
        maxSize = 10\<rparr> Missing))
     (NewHistory 10) =
     Some (Some ReadFailed, NewHistory 10)"
  proof (rule Load_too_long)
    show "storable (Command \<lparr>Command = replicate 65530 (CHR ''a''),
        Timestamp = \<lparr>unix_sec = 100, nsec = 0\<rparr>, Success = True, Duration = 5\<rparr>)"
      using nl by (simp add: storable_def isSpace_def)
    show "MaxScanTokenSize \<le> byte_length (entry_line \<lparr>Command = replicate 65530 (CHR ''a''),
        Timestamp = \<lparr>unix_sec = 100, nsec = 0\<rparr>, Success = True, Duration = 5\<rparr>)"
      using length_entry_line [of "\<lparr>Command = replicate 65530 (CHR ''a''),
        Timestamp = \<lparr>unix_sec = 100, nsec = 0\<rparr>, Success = True, Duration = 5\<rparr>"]
        length_le_byte_length [of "entry_line \<lparr>Command = replicate 65530 (CHR ''a''),
        Timestamp = \<lparr>unix_sec = 100, nsec = 0\<rparr>, Success = True, Duration = 5\<rparr>"]
      by (simp add: MaxScanTokenSize_def)
  qed
  moreover have "newline \<notin> set ''ls ''"
    by (simp add: newline_def)
  ultimately show ?thesis by blast
qed

text \<open>
  Claim C5, amended. For every log whose commands hold no newline and do not end in white
  space (\<open>storable\<close>; no command stored by \<^verbatim>\<open>Add\<close> or \<^verbatim>\<open>Load\<close>
  ends in white space),
  whose written lines each take fewer bytes in UTF-8 than the 64 KiB of the scanner
  (\<open>byte_length\<close>), and whose length is at
  most the \<open>maxSize\<close> of the history that reads, \<^verbatim>\<open>Save\<close> followed by
  \<^verbatim>\<open>Load\<close> on a new history succeeds and restores the same entries in the same
  order, each with its command, its success flag, its duration in nanoseconds and the Unix
  second of its time stamp; the time stamp keeps nothing below the second. The command may
  hold the character \<^verbatim>\<open>|\<close>.
\<close>

theorem save_load_roundtrip:
  "list_all (\<lambda>e. storable (Command e) \<and> byte_length (entry_line e) < MaxScanTokenSize) es \<and>
   int (length es) \<le> m \<longrightarrow>
     Load (snd (Save True \<lparr>entries = es, maxSize = m0\<rparr> f)) (NewHistory m) =
       Some (None,
         \<lparr>entries = map (\<lambda>e. e\<lparr>Timestamp := \<lparr>unix_sec = unix_sec (Timestamp e), nsec = 0\<rparr>\<rparr>) es,
          maxSize = m\<rparr>)"
proof
  assume a: "list_all (\<lambda>e. storable (Command e) \<and> byte_length (entry_line e) < MaxScanTokenSize) es \<and>
    int (length es) \<le> m"
  then have "list_all (\<lambda>e. storable (Command e)) es"
    and "list_all (\<lambda>e. byte_length (entry_line e) < MaxScanTokenSize) es"
    by (simp_all add: list_all_iff)
  from Load_Save [OF this, of m m0 f] a
  have "Load (snd (Save True \<lparr>entries = es, maxSize = m0\<rparr> f)) (NewHistory m) =
      Some (None, \<lparr>entries = map to_second es, maxSize = m\<rparr>)"
    by simp
  moreover have "to_second = (\<lambda>e. e\<lparr>Timestamp := \<lparr>unix_sec = unix_sec (Timestamp e), nsec = 0\<rparr>\<rparr>)"
    by (rule ext) (simp add: to_second_def time_Unix_def)
  ultimately show "Load (snd (Save True \<lparr>entries = es, maxSize = m0\<rparr> f)) (NewHistory m) =
       Some (None,
         \<lparr>entries = map (\<lambda>e. e\<lparr>Timestamp := \<lparr>unix_sec = unix_sec (Timestamp e), nsec = 0\<rparr>\<rparr>) es,
          maxSize = m\<rparr>)"
    by simp
qed

theorem save_load_roundtrip_witness:
  "list_all (\<lambda>e. storable (Command e) \<and> byte_length (entry_line e) < MaxScanTokenSize)
     [\<lparr>Command = ''squeue -u bob | grep R'', Timestamp = \<lparr>unix_sec = 1700000000, nsec = 123456789\<rparr>,
        Success = True, Duration = 1500000\<rparr>,
      \<lparr>Command = ''ls'', Timestamp = \<lparr>unix_sec = - 5, nsec = 0\<rparr>, Success = False,
        Duration = - 1\<rparr>] \<and>
   Load (snd (Save True
       \<lparr>entries =
          [\<lparr>Command = ''squeue -u bob | grep R'',
             Timestamp = \<lparr>unix_sec = 1700000000, nsec = 123456789\<rparr>,
             Success = True, Duration = 1500000\<rparr>,
           \<lparr>Command = ''ls'', Timestamp = \<lparr>unix_sec = - 5, nsec = 0\<rparr>, Success = False,
             Duration = - 1\<rparr>],
        maxSize = 1000\<rparr> Missing))
     (NewHistory 2) =
     Some (None,
       \<lparr>entries =
          [\<lparr>Command = ''squeue -u bob | grep R'',
             Timestamp = \<lparr>unix_sec = 1700000000, nsec = 0\<rparr>,
             Success = True, Duration = 1500000\<rparr>,
           \<lparr>Command = ''ls'', Timestamp = \<lparr>unix_sec = - 5, nsec = 0\<rparr>, Success = False,
             Duration = - 1\<rparr>],
        maxSize = 2\<rparr>)"
  using save_load_roundtrip
    [of "[\<lparr>Command = ''squeue -u bob | grep R'',
             Timestamp = \<lparr>unix_sec = 1700000000, nsec = 123456789\<rparr>,
             Success = True, Duration = 1500000\<rparr>,
           \<lparr>Command = ''ls'', Timestamp = \<lparr>unix_sec = - 5, nsec = 0\<rparr>, Success = False,
             Duration = - 1\<rparr>]" 2 1000 Missing]
  by (simp add: save_eval isSpace_def newline_def MaxScanTokenSize_def byte_length_def
      rune_bytes_def)

end
